theory Spec2Isabelle
  imports Complex_Main
begin

section \<open>Curve generators of the data scripts\<close>

text \<open>
  The four scripts \<^verbatim>\<open>generate_lissajous.py\<close>, \<^verbatim>\<open>generate_lorenz.py\<close>,
  \<^verbatim>\<open>generate_spiral_sphere.py\<close> and \<^verbatim>\<open>generate_torus_knot.py\<close> each build a list of
  \<open>(x, y, z)\<close> tuples in a \<^verbatim>\<open>for _ in range(steps)\<close> loop.

  Python integers are \<^typ>\<open>int\<close>. The scripts are read twice. First in exact real
  arithmetic, with floats as \<^typ>\<open>real\<close>: there a division by zero raises
  \<^verbatim>\<open>ZeroDivisionError\<close>, \<^verbatim>\<open>math.sqrt\<close> of a negative number raises \<^verbatim>\<open>ValueError\<close>,
  and nothing else can go wrong. Then over doubles with their range (infinities, NaN,
  \<^verbatim>\<open>OverflowError\<close>), still without rounding. A function that can raise returns
  \<open>py_error + 'a\<close>.
\<close>

section \<open>The generators in exact real arithmetic\<close>

subsection \<open>Python primitives\<close>

datatype py_error = ZeroDivisionError | ValueError | OverflowError

type_synonym point = "real \<times> real \<times> real"

text \<open>\<^verbatim>\<open>m // n\<close> on integers: floor division, raising on a zero divisor.\<close>

definition py_floordiv :: "int \<Rightarrow> int \<Rightarrow> py_error + int" where
  "py_floordiv m n = (if n = 0 then Inl ZeroDivisionError else Inr (m div n))"

text \<open>\<^verbatim>\<open>u / v\<close>: true division, raising on a zero divisor.\<close>

definition py_truediv :: "real \<Rightarrow> real \<Rightarrow> py_error + real" where
  "py_truediv u v = (if v = 0 then Inl ZeroDivisionError else Inr (u / v))"

text \<open>\<^verbatim>\<open>math.sqrt(u)\<close>: raises \<^verbatim>\<open>ValueError\<close> (math domain error) below zero.\<close>

definition math_sqrt :: "real \<Rightarrow> py_error + real" where
  "math_sqrt u = (if u < 0 then Inl ValueError else Inr (sqrt u))"

text \<open>
  \<^verbatim>\<open>for i in range(steps): coordinates.append(body(i))\<close>, stopping at the first
  exception the body raises. \<^verbatim>\<open>range(steps)\<close> is \<open>[0..<nat steps]\<close>: empty when
  \<open>steps \<le> 0\<close>.
\<close>

fun for_range_append ::
  "(nat \<Rightarrow> py_error + 'p) \<Rightarrow> nat list \<Rightarrow> 'p list \<Rightarrow> py_error + 'p list" where
  "for_range_append body [] coordinates = Inr coordinates"
| "for_range_append body (i # rest) coordinates =
     (case body i of
        Inl e \<Rightarrow> Inl e
      | Inr pt \<Rightarrow> for_range_append body rest (coordinates @ [pt]))"

subsection \<open>\<^verbatim>\<open>generate_lissajous.py\<close>\<close>

text \<open>The local helper \<^verbatim>\<open>lcm(a, b) = abs(a * b) // gcd(a, b)\<close>, with \<^verbatim>\<open>math.gcd\<close>.\<close>

definition lcm_py :: "int \<Rightarrow> int \<Rightarrow> py_error + int" where
  "lcm_py a b = py_floordiv \<bar>a * b\<bar> (gcd a b)"

text \<open>The body of the loop, for the index \<open>i\<close>.\<close>

definition lissajous_body ::
  "int \<Rightarrow> int \<Rightarrow> int \<Rightarrow> real \<Rightarrow> real \<Rightarrow> real \<Rightarrow> real \<Rightarrow> real \<Rightarrow> real \<Rightarrow> int \<Rightarrow> real
     \<Rightarrow> nat \<Rightarrow> py_error + point" where
  "lissajous_body a b c phase_x phase_y phase_z amp_x amp_y amp_z steps t_max i =
     (case py_truediv (real i) (of_int steps) of
        Inl e \<Rightarrow> Inl e
      | Inr d \<Rightarrow>
          (let t = d * t_max;
               x = amp_x * sin (of_int a * t + phase_x);
               y = amp_y * sin (of_int b * t + phase_y);
               z = amp_z * sin (of_int c * t + phase_z)
           in Inr (x, y, z)))"

definition generate_lissajous ::
  "int \<Rightarrow> int \<Rightarrow> int \<Rightarrow> real \<Rightarrow> real \<Rightarrow> real \<Rightarrow> real \<Rightarrow> real \<Rightarrow> real \<Rightarrow> int
     \<Rightarrow> py_error + point list" where
  "generate_lissajous a b c phase_x phase_y phase_z amp_x amp_y amp_z steps =
     (case lcm_py a b of
        Inl e \<Rightarrow> Inl e
      | Inr ab \<Rightarrow>
          (case lcm_py ab c of
             Inl e \<Rightarrow> Inl e
           | Inr period \<Rightarrow>
               (let t_max = 2 * pi * of_int period
                in for_range_append
                     (lissajous_body a b c phase_x phase_y phase_z amp_x amp_y amp_z steps t_max)
                     [0..<nat steps] [])))"

subsection \<open>\<^verbatim>\<open>generate_lorenz.py\<close>\<close>

definition sigma :: real where "sigma = 10"
definition rho :: real where "rho = 28"
definition beta :: real where "beta = 8 / 3"
definition scale :: real where "scale = 10"

text \<open>
  The loop, with the number of iterations left, the state \<open>(x, y, z)\<close> and the list
  built so far. The three derivatives are computed from the state before any of
  \<open>x\<close>, \<open>y\<close>, \<open>z\<close> is updated.
\<close>

fun lorenz_loop :: "nat \<Rightarrow> real \<Rightarrow> real \<times> real \<times> real \<Rightarrow> point list \<Rightarrow> point list" where
  "lorenz_loop 0 dt (x, y, z) coordinates = coordinates"
| "lorenz_loop (Suc n) dt (x, y, z) coordinates =
     (let coordinates' = coordinates @ [(x * scale, y * scale, z * scale)];
          dx_dt = sigma * (y - x);
          dy_dt = x * (rho - z) - y;
          dz_dt = x * y - beta * z
      in lorenz_loop n dt (x + dx_dt * dt, y + dy_dt * dt, z + dz_dt * dt) coordinates')"

definition lorenz_attractor :: "int \<Rightarrow> real \<Rightarrow> point list" where
  "lorenz_attractor steps dt = lorenz_loop (nat steps) dt (1 / 10, 0, 0) []"

subsection \<open>\<^verbatim>\<open>generate_spiral_sphere.py\<close>\<close>

text \<open>
  The loop, with the number of iterations left, the loop variables \<open>y\<close> and
  \<open>turn_angle\<close>, and the list built so far.
\<close>

fun spiral_loop ::
  "nat \<Rightarrow> real \<Rightarrow> real \<Rightarrow> real \<Rightarrow> real \<Rightarrow> real \<Rightarrow> point list \<Rightarrow> py_error + point list" where
  "spiral_loop 0 radius y_step turn_angle_step y turn_angle coordinates = Inr coordinates"
| "spiral_loop (Suc n) radius y_step turn_angle_step y turn_angle coordinates =
     (case math_sqrt (radius * radius - y * y) of
        Inl e \<Rightarrow> Inl e
      | Inr y_radius \<Rightarrow>
          (let x = cos turn_angle * y_radius;
               z = sin turn_angle * y_radius
           in spiral_loop n radius y_step turn_angle_step
                (y + y_step) (turn_angle + turn_angle_step) (coordinates @ [(x, y, z)])))"

definition spiral :: "int \<Rightarrow> real \<Rightarrow> real \<Rightarrow> py_error + point list" where
  "spiral steps radius turns =
     (let y = - radius
      in case py_truediv (2 * radius) (of_int steps) of
           Inl e \<Rightarrow> Inl e
         | Inr y_step \<Rightarrow>
             (let turn_angle = 0
              in case py_truediv (turns * 2 * pi) (of_int steps) of
                   Inl e \<Rightarrow> Inl e
                 | Inr turn_angle_step \<Rightarrow>
                     spiral_loop (nat steps) radius y_step turn_angle_step y turn_angle []))"

subsection \<open>\<^verbatim>\<open>generate_torus_knot.py\<close>\<close>

definition torus_knot_body ::
  "int \<Rightarrow> int \<Rightarrow> real \<Rightarrow> real \<Rightarrow> int \<Rightarrow> real \<Rightarrow> nat \<Rightarrow> py_error + point" where
  "torus_knot_body p q R r steps t_max i =
     (case py_truediv (real i) (of_int steps) of
        Inl e \<Rightarrow> Inl e
      | Inr d \<Rightarrow>
          (let t = d * t_max;
               x = (R + r * cos (of_int p * t)) * cos (of_int q * t);
               y = (R + r * cos (of_int p * t)) * sin (of_int q * t);
               z = r * sin (of_int p * t)
           in Inr (x, y, z)))"

definition generate_torus_knot ::
  "int \<Rightarrow> int \<Rightarrow> real \<Rightarrow> real \<Rightarrow> int \<Rightarrow> py_error + point list" where
  "generate_torus_knot p q R r steps =
     (let t_max = 2 * pi * of_int (max p q)
      in for_range_append (torus_knot_body p q R r steps t_max) [0..<nat steps] [])"

section \<open>The generators over doubles with their range\<close>

text \<open>
  The definitions above read the scripts in exact real arithmetic, where the only
  exceptions are the division by zero and the square root of a negative number. The
  definitions of this section read the same code over Python's numbers as they
  are typed: an \<^verbatim>\<open>int\<close> is unbounded, a \<^verbatim>\<open>float\<close> is a finite double, an
  infinity or NaN. A finite result whose magnitude reaches \<open>2 ^ 1024 - 2 ^ 970\<close>
  overflows to an infinity, the conversion of an \<^verbatim>\<open>int\<close> of that magnitude to a
  \<^verbatim>\<open>float\<close> raises \<^verbatim>\<open>OverflowError\<close>, and \<^verbatim>\<open>math.sin\<close>, \<^verbatim>\<open>math.cos\<close> of an
  infinity raise \<^verbatim>\<open>ValueError\<close>. Rounding of finite results is still left out.
\<close>

subsection \<open>Doubles\<close>

datatype pyfloat = Fin real | PInf | NInf | NaN

definition dbl_overflow :: real where
  "dbl_overflow = 2 ^ 1024 - 2 ^ 970"

text \<open>The double of an exact result: an infinity once the range is exceeded.\<close>

definition fl_of_real :: "real \<Rightarrow> pyfloat" where
  "fl_of_real u =
     (if dbl_overflow \<le> u then PInf else if u \<le> - dbl_overflow then NInf else Fin u)"

fun fl_sgn :: "pyfloat \<Rightarrow> real" where
  "fl_sgn (Fin u) = sgn u"
| "fl_sgn PInf = 1"
| "fl_sgn NInf = - 1"
| "fl_sgn NaN = 0"

text \<open>The infinity of a sign; \<open>0 * inf\<close> is NaN.\<close>

definition fl_inf :: "real \<Rightarrow> pyfloat" where
  "fl_inf s = (if s = 0 then NaN else if 0 < s then PInf else NInf)"

fun fl_neg :: "pyfloat \<Rightarrow> pyfloat" where
  "fl_neg (Fin u) = Fin (- u)"
| "fl_neg PInf = NInf"
| "fl_neg NInf = PInf"
| "fl_neg NaN = NaN"

fun fl_add :: "pyfloat \<Rightarrow> pyfloat \<Rightarrow> pyfloat" where
  "fl_add NaN y = NaN"
| "fl_add x NaN = NaN"
| "fl_add (Fin u) (Fin v) = fl_of_real (u + v)"
| "fl_add PInf NInf = NaN"
| "fl_add NInf PInf = NaN"
| "fl_add PInf y = PInf"
| "fl_add NInf y = NInf"
| "fl_add (Fin u) y = y"

definition fl_sub :: "pyfloat \<Rightarrow> pyfloat \<Rightarrow> pyfloat" where
  "fl_sub x y = fl_add x (fl_neg y)"

fun fl_mul :: "pyfloat \<Rightarrow> pyfloat \<Rightarrow> pyfloat" where
  "fl_mul NaN y = NaN"
| "fl_mul x NaN = NaN"
| "fl_mul (Fin u) (Fin v) = fl_of_real (u * v)"
| "fl_mul x y = fl_inf (fl_sgn x * fl_sgn y)"

text \<open>Division by a divisor that is not zero.\<close>

fun fl_div :: "pyfloat \<Rightarrow> pyfloat \<Rightarrow> pyfloat" where
  "fl_div NaN y = NaN"
| "fl_div x NaN = NaN"
| "fl_div (Fin u) (Fin v) = fl_of_real (u / v)"
| "fl_div (Fin u) y = Fin 0"
| "fl_div x (Fin v) = fl_inf (fl_sgn x * sgn v)"
| "fl_div x y = NaN"

subsection \<open>Numbers and their operators\<close>

datatype pynum = PyInt int | PyFloat pyfloat

type_synonym pypoint = "pynum \<times> pynum \<times> pynum"

definition py_bind :: "py_error + 'a \<Rightarrow> ('a \<Rightarrow> py_error + 'b) \<Rightarrow> py_error + 'b" where
  "py_bind m f = (case m of Inl e \<Rightarrow> Inl e | Inr v \<Rightarrow> f v)"

text \<open>An operand as a double: an \<^verbatim>\<open>int\<close> too large raises \<^verbatim>\<open>OverflowError\<close>.\<close>

definition num_float :: "pynum \<Rightarrow> py_error + pyfloat" where
  "num_float v =
     (case v of
        PyInt n \<Rightarrow> if dbl_overflow \<le> \<bar>of_int n\<bar> then Inl OverflowError else Inr (Fin (of_int n))
      | PyFloat x \<Rightarrow> Inr x)"

text \<open>
  \<^verbatim>\<open>v + w\<close>, \<^verbatim>\<open>v - w\<close>, \<^verbatim>\<open>v * w\<close>: on two \<^verbatim>\<open>int\<close>s the exact integer, otherwise both
  operands become doubles.
\<close>

definition num_arith ::
  "(int \<Rightarrow> int \<Rightarrow> int) \<Rightarrow> (pyfloat \<Rightarrow> pyfloat \<Rightarrow> pyfloat) \<Rightarrow> pynum \<Rightarrow> pynum
     \<Rightarrow> py_error + pynum" where
  "num_arith int_op float_op v w =
     (case (v, w) of
        (PyInt m, PyInt n) \<Rightarrow> Inr (PyInt (int_op m n))
      | _ \<Rightarrow> py_bind (num_float v) (\<lambda>x. py_bind (num_float w) (\<lambda>y. Inr (PyFloat (float_op x y)))))"

definition num_add :: "pynum \<Rightarrow> pynum \<Rightarrow> py_error + pynum" where
  "num_add = num_arith (\<lambda>m n. m + n) fl_add"

definition num_sub :: "pynum \<Rightarrow> pynum \<Rightarrow> py_error + pynum" where
  "num_sub = num_arith (\<lambda>m n. m - n) fl_sub"

definition num_mul :: "pynum \<Rightarrow> pynum \<Rightarrow> py_error + pynum" where
  "num_mul = num_arith (\<lambda>m n. m * n) fl_mul"

definition num_neg :: "pynum \<Rightarrow> pynum" where
  "num_neg v = (case v of PyInt n \<Rightarrow> PyInt (- n) | PyFloat x \<Rightarrow> PyFloat (fl_neg x))"

text \<open>
  \<^verbatim>\<open>v / w\<close>: on two \<^verbatim>\<open>int\<close>s the quotient as a double, raising when the divisor is
  zero or the quotient out of range; otherwise both operands become doubles and a
  zero divisor raises.
\<close>

definition num_truediv :: "pynum \<Rightarrow> pynum \<Rightarrow> py_error + pynum" where
  "num_truediv v w =
     (case (v, w) of
        (PyInt m, PyInt n) \<Rightarrow>
          if n = 0 then Inl ZeroDivisionError
          else if dbl_overflow \<le> \<bar>of_int m / of_int n\<bar> then Inl OverflowError
          else Inr (PyFloat (Fin (of_int m / of_int n)))
      | _ \<Rightarrow>
          py_bind (num_float v) (\<lambda>x. py_bind (num_float w) (\<lambda>y.
            if y = Fin 0 then Inl ZeroDivisionError else Inr (PyFloat (fl_div x y)))))"

definition math_pi :: pynum where
  "math_pi = PyFloat (Fin pi)"

text \<open>\<^verbatim>\<open>math.sin\<close>, \<^verbatim>\<open>math.cos\<close>: a domain error at an infinity, NaN at NaN.\<close>

definition num_sin :: "pynum \<Rightarrow> py_error + pynum" where
  "num_sin v =
     py_bind (num_float v) (\<lambda>x.
       case x of
         Fin u \<Rightarrow> Inr (PyFloat (Fin (sin u)))
       | NaN \<Rightarrow> Inr (PyFloat NaN)
       | _ \<Rightarrow> Inl ValueError)"

definition num_cos :: "pynum \<Rightarrow> py_error + pynum" where
  "num_cos v =
     py_bind (num_float v) (\<lambda>x.
       case x of
         Fin u \<Rightarrow> Inr (PyFloat (Fin (cos u)))
       | NaN \<Rightarrow> Inr (PyFloat NaN)
       | _ \<Rightarrow> Inl ValueError)"

text \<open>
  \<^verbatim>\<open>math.sqrt\<close>: a domain error below zero and at minus infinity, infinity at
  infinity, NaN at NaN.
\<close>

definition num_sqrt :: "pynum \<Rightarrow> py_error + pynum" where
  "num_sqrt v =
     py_bind (num_float v) (\<lambda>x.
       case x of
         Fin u \<Rightarrow> if u < 0 then Inl ValueError else Inr (PyFloat (Fin (sqrt u)))
       | PInf \<Rightarrow> Inr (PyFloat PInf)
       | NInf \<Rightarrow> Inl ValueError
       | NaN \<Rightarrow> Inr (PyFloat NaN))"

subsection \<open>\<^verbatim>\<open>generate_lissajous.py\<close> over doubles\<close>

text \<open>
  The frequencies and the step count are \<^verbatim>\<open>int\<close>s (\<^verbatim>\<open>math.gcd\<close> and \<^verbatim>\<open>range\<close> take
  nothing else); phases and amplitudes are any numbers.
\<close>

definition lissajous_body_fl ::
  "int \<Rightarrow> int \<Rightarrow> int \<Rightarrow> pynum \<Rightarrow> pynum \<Rightarrow> pynum \<Rightarrow> pynum \<Rightarrow> pynum \<Rightarrow> pynum \<Rightarrow> int \<Rightarrow> pynum
     \<Rightarrow> nat \<Rightarrow> py_error + pypoint" where
  "lissajous_body_fl a b c phase_x phase_y phase_z amp_x amp_y amp_z steps t_max i =
     py_bind (num_truediv (PyInt (int i)) (PyInt steps)) (\<lambda>d.
     py_bind (num_mul d t_max) (\<lambda>t.
     py_bind (num_mul (PyInt a) t) (\<lambda>a_t.
     py_bind (num_add a_t phase_x) (\<lambda>ux.
     py_bind (num_sin ux) (\<lambda>sx.
     py_bind (num_mul amp_x sx) (\<lambda>x.
     py_bind (num_mul (PyInt b) t) (\<lambda>b_t.
     py_bind (num_add b_t phase_y) (\<lambda>uy.
     py_bind (num_sin uy) (\<lambda>sy.
     py_bind (num_mul amp_y sy) (\<lambda>y.
     py_bind (num_mul (PyInt c) t) (\<lambda>c_t.
     py_bind (num_add c_t phase_z) (\<lambda>uz.
     py_bind (num_sin uz) (\<lambda>sz.
     py_bind (num_mul amp_z sz) (\<lambda>z.
     Inr (x, y, z)))))))))))))))"

definition generate_lissajous_fl ::
  "int \<Rightarrow> int \<Rightarrow> int \<Rightarrow> pynum \<Rightarrow> pynum \<Rightarrow> pynum \<Rightarrow> pynum \<Rightarrow> pynum \<Rightarrow> pynum \<Rightarrow> int
     \<Rightarrow> py_error + pypoint list" where
  "generate_lissajous_fl a b c phase_x phase_y phase_z amp_x amp_y amp_z steps =
     py_bind (lcm_py a b) (\<lambda>ab.
     py_bind (lcm_py ab c) (\<lambda>period.
     py_bind (num_mul (PyInt 2) math_pi) (\<lambda>two_pi.
     py_bind (num_mul two_pi (PyInt period)) (\<lambda>t_max.
     for_range_append
       (lissajous_body_fl a b c phase_x phase_y phase_z amp_x amp_y amp_z steps t_max)
       [0..<nat steps] []))))"

subsection \<open>\<^verbatim>\<open>generate_spiral_sphere.py\<close> over doubles\<close>

text \<open>
  \<^verbatim>\<open>main\<close> passes \<^verbatim>\<open>int\<close>s for the radius and the turns; the function takes any
  numbers. \<^verbatim>\<open>turn_angle\<close> starts as the \<^verbatim>\<open>int\<close> \<open>0\<close>.
\<close>

fun spiral_loop_fl ::
  "nat \<Rightarrow> pynum \<Rightarrow> pynum \<Rightarrow> pynum \<Rightarrow> pynum \<Rightarrow> pynum \<Rightarrow> pypoint list
     \<Rightarrow> py_error + pypoint list" where
  "spiral_loop_fl 0 radius y_step turn_angle_step y turn_angle coordinates = Inr coordinates"
| "spiral_loop_fl (Suc n) radius y_step turn_angle_step y turn_angle coordinates =
     py_bind (num_mul radius radius) (\<lambda>rr.
     py_bind (num_mul y y) (\<lambda>yy.
     py_bind (num_sub rr yy) (\<lambda>radicand.
     py_bind (num_sqrt radicand) (\<lambda>y_radius.
     py_bind (num_cos turn_angle) (\<lambda>ca.
     py_bind (num_mul ca y_radius) (\<lambda>x.
     py_bind (num_sin turn_angle) (\<lambda>sa.
     py_bind (num_mul sa y_radius) (\<lambda>z.
     py_bind (num_add y y_step) (\<lambda>y'.
     py_bind (num_add turn_angle turn_angle_step) (\<lambda>turn_angle'.
     spiral_loop_fl n radius y_step turn_angle_step y' turn_angle'
       (coordinates @ [(x, y, z)])))))))))))"

definition spiral_fl :: "int \<Rightarrow> pynum \<Rightarrow> pynum \<Rightarrow> py_error + pypoint list" where
  "spiral_fl steps radius turns =
     (let y = num_neg radius
      in py_bind (num_mul (PyInt 2) radius) (\<lambda>two_radius.
         py_bind (num_truediv two_radius (PyInt steps)) (\<lambda>y_step.
         (let turn_angle = PyInt 0
          in py_bind (num_mul turns (PyInt 2)) (\<lambda>turns2.
             py_bind (num_mul turns2 math_pi) (\<lambda>turns2pi.
             py_bind (num_truediv turns2pi (PyInt steps)) (\<lambda>turn_angle_step.
             spiral_loop_fl (nat steps) radius y_step turn_angle_step y turn_angle [])))))))"

subsection \<open>\<^verbatim>\<open>generate_torus_knot.py\<close> over doubles\<close>

text \<open>The winding numbers and the step count are \<^verbatim>\<open>int\<close>s, the radii any numbers.\<close>

definition torus_knot_body_fl ::
  "int \<Rightarrow> int \<Rightarrow> pynum \<Rightarrow> pynum \<Rightarrow> int \<Rightarrow> pynum \<Rightarrow> nat \<Rightarrow> py_error + pypoint" where
  "torus_knot_body_fl p q R r steps t_max i =
     py_bind (num_truediv (PyInt (int i)) (PyInt steps)) (\<lambda>d.
     py_bind (num_mul d t_max) (\<lambda>t.
     py_bind (num_mul (PyInt p) t) (\<lambda>pt.
     py_bind (num_cos pt) (\<lambda>cp.
     py_bind (num_mul r cp) (\<lambda>rcp.
     py_bind (num_add R rcp) (\<lambda>tube.
     py_bind (num_mul (PyInt q) t) (\<lambda>qt.
     py_bind (num_cos qt) (\<lambda>cq.
     py_bind (num_mul tube cq) (\<lambda>x.
     py_bind (num_mul (PyInt p) t) (\<lambda>pt'.
     py_bind (num_cos pt') (\<lambda>cp'.
     py_bind (num_mul r cp') (\<lambda>rcp'.
     py_bind (num_add R rcp') (\<lambda>tube'.
     py_bind (num_mul (PyInt q) t) (\<lambda>qt'.
     py_bind (num_sin qt') (\<lambda>sq.
     py_bind (num_mul tube' sq) (\<lambda>y.
     py_bind (num_mul (PyInt p) t) (\<lambda>pt''.
     py_bind (num_sin pt'') (\<lambda>sp.
     py_bind (num_mul r sp) (\<lambda>z.
     Inr (x, y, z))))))))))))))))))))"

definition generate_torus_knot_fl ::
  "int \<Rightarrow> int \<Rightarrow> pynum \<Rightarrow> pynum \<Rightarrow> int \<Rightarrow> py_error + pypoint list" where
  "generate_torus_knot_fl p q R r steps =
     py_bind (num_mul (PyInt 2) math_pi) (\<lambda>two_pi.
     py_bind (num_mul two_pi (PyInt (max p q))) (\<lambda>t_max.
     for_range_append (torus_knot_body_fl p q R r steps t_max) [0..<nat steps] []))"

section \<open>The command-line entry points\<close>






section \<open>What the specification says, in its own words\<close>

text \<open>
  The definitions of this section follow the specification, not the code; the theorems
  below compare them with the functions of the scripts.
\<close>

text \<open>\<open>lcm(m, n) = |m * n| / gcd(m, n)\<close> and \<open>period = lcm(lcm(a, b), c)\<close>.\<close>

definition lcm_spec :: "int \<Rightarrow> int \<Rightarrow> int" where
  "lcm_spec m n = \<bar>m * n\<bar> div gcd m n"

definition lissajous_spec_point ::
  "int \<Rightarrow> int \<Rightarrow> int \<Rightarrow> real \<Rightarrow> real \<Rightarrow> real \<Rightarrow> real \<Rightarrow> real \<Rightarrow> real \<Rightarrow> int \<Rightarrow> nat \<Rightarrow> point" where
  "lissajous_spec_point a b c phase_x phase_y phase_z amp_x amp_y amp_z steps i =
     (let period = lcm_spec (lcm_spec a b) c;
          t_max = 2 * pi * of_int period;
          t = (real i / of_int steps) * t_max
      in (amp_x * sin (of_int a * t + phase_x),
          amp_y * sin (of_int b * t + phase_y),
          amp_z * sin (of_int c * t + phase_z)))"

text \<open>
  One explicit Euler step of the Lorenz system with \<open>\<sigma> = 10\<close>, \<open>\<rho> = 28\<close>,
  \<open>\<beta> = 8/3\<close>, the scaling by \<open>10\<close>, and the emitted sequence: the \<open>i\<close>-th point is the
  scaled state after \<open>i\<close> steps from \<open>(0.1, 0, 0)\<close>.
\<close>

definition euler_step_spec :: "real \<Rightarrow> real \<times> real \<times> real \<Rightarrow> real \<times> real \<times> real" where
  "euler_step_spec dt s =
     (case s of (x, y, z) \<Rightarrow>
        (x + 10 * (y - x) * dt, y + (x * (28 - z) - y) * dt, z + (x * y - 8 / 3 * z) * dt))"

definition scaled_spec :: "real \<times> real \<times> real \<Rightarrow> point" where
  "scaled_spec s = (case s of (x, y, z) \<Rightarrow> (x * 10, y * 10, z * 10))"

definition lorenz_spec :: "int \<Rightarrow> real \<Rightarrow> point list" where
  "lorenz_spec steps dt =
     map (\<lambda>i. scaled_spec ((euler_step_spec dt ^^ i) (1 / 10, 0, 0))) [0..<nat steps]"

text \<open>
  The spiral: at index \<open>k\<close> the height is \<open>-radius + k * y_step\<close>, the angle is
  \<open>k * turn_angle_step\<close>, and the cross-sectional radius is the square root of
  \<open>radius\<^sup>2 - y\<^sup>2\<close>.
\<close>

definition spiral_spec_y :: "int \<Rightarrow> real \<Rightarrow> nat \<Rightarrow> real" where
  "spiral_spec_y steps radius k = - radius + real k * (2 * radius / of_int steps)"

definition spiral_spec_point :: "int \<Rightarrow> real \<Rightarrow> real \<Rightarrow> nat \<Rightarrow> point" where
  "spiral_spec_point steps radius turns k =
     (let y = spiral_spec_y steps radius k;
          angle = real k * (turns * 2 * pi / of_int steps);
          y_radius = sqrt (radius * radius - y * y)
      in (cos angle * y_radius, y, sin angle * y_radius))"

text \<open>The torus knot: \<open>t_max = 2\<pi> * max(p, q)\<close> and \<open>t\<^sub>i = (i / steps) * t_max\<close>.\<close>

definition torus_knot_spec_t :: "int \<Rightarrow> int \<Rightarrow> int \<Rightarrow> nat \<Rightarrow> real" where
  "torus_knot_spec_t p q steps i = (real i / of_int steps) * (2 * pi * of_int (max p q))"

definition torus_knot_spec_point :: "int \<Rightarrow> int \<Rightarrow> real \<Rightarrow> real \<Rightarrow> int \<Rightarrow> nat \<Rightarrow> point" where
  "torus_knot_spec_point p q R r steps i =
     (let t = torus_knot_spec_t p q steps i
      in ((R + r * cos (of_int p * t)) * cos (of_int q * t),
          (R + r * cos (of_int p * t)) * sin (of_int q * t),
          r * sin (of_int p * t)))"

text \<open>The point emitted \<open>k\<close> iterations after the loop is entered with \<open>y\<close> and \<open>turn_angle\<close>.\<close>

definition spiral_loop_point :: "real \<Rightarrow> real \<Rightarrow> real \<Rightarrow> real \<Rightarrow> real \<Rightarrow> nat \<Rightarrow> point" where
  "spiral_loop_point radius y_step turn_angle_step y turn_angle k =
     (cos (turn_angle + real k * turn_angle_step)
        * sqrt (radius * radius - (y + real k * y_step) * (y + real k * y_step)),
      y + real k * y_step,
      sin (turn_angle + real k * turn_angle_step)
        * sqrt (radius * radius - (y + real k * y_step) * (y + real k * y_step)))"

text \<open>A point of finite coordinates, as the generators over doubles return it.\<close>

definition fin_point :: "point \<Rightarrow> pypoint" where
  "fin_point pt = (case pt of (x, y, z) \<Rightarrow> (PyFloat (Fin x), PyFloat (Fin y), PyFloat (Fin z)))"

text \<open>An argument of the spiral whose double is in range: any float, or an \<^verbatim>\<open>int\<close> \<open>n\<close> with \<open>|2 * n|\<close> below the overflow threshold.\<close>

definition doubled_in_range :: "pynum \<Rightarrow> bool" where
  "doubled_in_range v =
     (case v of PyInt n \<Rightarrow> \<bar>real_of_int (2 * n)\<bar> < dbl_overflow | PyFloat x \<Rightarrow> True)"

section \<open>The loops in closed form, in exact real arithmetic\<close>

lemma for_range_append_map:
  "(\<And>i. i \<in> set xs \<Longrightarrow> body i = Inr (f i)) \<Longrightarrow>
   for_range_append body xs coordinates = Inr (coordinates @ map f xs)"
  by (induction xs arbitrary: coordinates) simp_all

subsection \<open>Lissajous\<close>

lemma lcm_py_eq: "gcd a b \<noteq> 0 \<Longrightarrow> lcm_py a b = Inr (lcm a b)"
  by (simp add: lcm_py_def py_floordiv_def lcm_altdef_int abs_mult)

lemma lcm_py_zero: "gcd a b = 0 \<Longrightarrow> lcm_py a b = Inl ZeroDivisionError"
  by (simp add: lcm_py_def py_floordiv_def)

lemma lcm_spec_eq: "lcm_spec m n = lcm m n"
  by (simp add: lcm_spec_def lcm_altdef_int abs_mult)

lemma lissajous_body_eq:
  "steps \<noteq> 0 \<Longrightarrow>
   lissajous_body a b c phase_x phase_y phase_z amp_x amp_y amp_z steps
       (2 * pi * of_int (lcm (lcm a b) c)) i =
     Inr (lissajous_spec_point a b c phase_x phase_y phase_z amp_x amp_y amp_z steps i)"
  by (simp add: lissajous_body_def py_truediv_def lissajous_spec_point_def lcm_spec_eq Let_def)

lemma generate_lissajous_eq:
  assumes "gcd a b \<noteq> 0" and "gcd (lcm a b) c \<noteq> 0"
  shows "generate_lissajous a b c phase_x phase_y phase_z amp_x amp_y amp_z steps =
     Inr (map (lissajous_spec_point a b c phase_x phase_y phase_z amp_x amp_y amp_z steps)
            [0..<nat steps])"
proof (cases "steps \<le> 0")
  case True
  with assms show ?thesis
    by (simp add: generate_lissajous_def lcm_py_eq)
next
  case False
  then have "steps \<noteq> 0" by simp
  then have "for_range_append
      (lissajous_body a b c phase_x phase_y phase_z amp_x amp_y amp_z steps
         (2 * pi * of_int (lcm (lcm a b) c))) [0..<nat steps] [] =
     Inr ([] @ map (lissajous_spec_point a b c phase_x phase_y phase_z amp_x amp_y amp_z steps)
            [0..<nat steps])"
    by (intro for_range_append_map lissajous_body_eq)
  with assms show ?thesis
    by (simp add: generate_lissajous_def lcm_py_eq)
qed

lemma lissajous_spec_point_0:
  "lissajous_spec_point a b c phase_x phase_y phase_z amp_x amp_y amp_z steps 0 =
     (amp_x * sin phase_x, amp_y * sin phase_y, amp_z * sin phase_z)"
  by (simp add: lissajous_spec_point_def)

subsection \<open>Lorenz\<close>

lemma lorenz_loop_eq:
  "lorenz_loop n dt s coordinates =
     coordinates @ map (\<lambda>i. scaled_spec ((euler_step_spec dt ^^ i) s)) [0..<n]"
proof (induction n arbitrary: s coordinates)
  case 0
  show ?case by (cases s) simp
next
  case (Suc n)
  obtain x y z where s: "s = (x, y, z)" by (cases s) auto
  have step: "(x + sigma * (y - x) * dt, y + (x * (rho - z) - y) * dt,
      z + (x * y - beta * z) * dt) = euler_step_spec dt s"
    by (simp add: s euler_step_spec_def sigma_def rho_def beta_def)
  have emit: "(x * scale, y * scale, z * scale) = scaled_spec s"
    by (simp add: s scaled_spec_def scale_def)
  have "lorenz_loop (Suc n) dt s coordinates =
      lorenz_loop n dt (euler_step_spec dt s) (coordinates @ [scaled_spec s])"
    unfolding s lorenz_loop.simps Let_def using step emit by (simp add: s)
  also have "\<dots> = (coordinates @ [scaled_spec s]) @
      map (\<lambda>i. scaled_spec ((euler_step_spec dt ^^ i) (euler_step_spec dt s))) [0..<n]"
    by (rule Suc.IH)
  also have "\<dots> = coordinates @
      map (\<lambda>i. scaled_spec ((euler_step_spec dt ^^ i) s)) [0..<Suc n]"
    by (simp add: map_upt_Suc funpow_swap1 del: upt_Suc)
  finally show ?case .
qed

lemma lorenz_attractor_eq: "lorenz_attractor steps dt = lorenz_spec steps dt"
  by (simp add: lorenz_attractor_def lorenz_spec_def lorenz_loop_eq)

subsection \<open>Spiral\<close>

lemma spiral_loop_eq:
  "(\<And>k. k < n \<Longrightarrow> 0 \<le> radius * radius - (y + real k * y_step) * (y + real k * y_step)) \<Longrightarrow>
   spiral_loop n radius y_step turn_angle_step y turn_angle coordinates =
     Inr (coordinates @
          map (spiral_loop_point radius y_step turn_angle_step y turn_angle) [0..<n])"
proof (induction n arbitrary: y turn_angle coordinates)
  case 0
  show ?case by simp
next
  case (Suc n)
  from Suc.prems [of 0] have r0: "\<not> radius * radius - y * y < 0" by simp
  have later: "0 \<le> radius * radius
        - (y + y_step + real k * y_step) * (y + y_step + real k * y_step)" if "k < n" for k
    using Suc.prems [of "Suc k"] that by (simp add: algebra_simps)
  have shift: "spiral_loop_point radius y_step turn_angle_step (y + y_step)
        (turn_angle + turn_angle_step) k =
      spiral_loop_point radius y_step turn_angle_step y turn_angle (Suc k)" for k
    by (simp add: spiral_loop_point_def algebra_simps)
  have "spiral_loop (Suc n) radius y_step turn_angle_step y turn_angle coordinates =
      spiral_loop n radius y_step turn_angle_step (y + y_step) (turn_angle + turn_angle_step)
        (coordinates @ [spiral_loop_point radius y_step turn_angle_step y turn_angle 0])"
    using r0 by (simp add: math_sqrt_def Let_def spiral_loop_point_def)
  also have "\<dots> = Inr ((coordinates @ [spiral_loop_point radius y_step turn_angle_step y turn_angle 0])
      @ map (spiral_loop_point radius y_step turn_angle_step (y + y_step)
               (turn_angle + turn_angle_step)) [0..<n])"
    by (rule Suc.IH) (rule later)
  also have "\<dots> = Inr (coordinates @
      map (spiral_loop_point radius y_step turn_angle_step y turn_angle) [0..<Suc n])"
    by (simp add: map_upt_Suc shift del: upt_Suc)
  finally show ?case .
qed

lemma spiral_radicand:
  assumes "0 < steps" and "k < nat steps"
  shows "0 \<le> radius * radius - spiral_spec_y steps radius k * spiral_spec_y steps radius k"
proof -
  define c where "c = 2 * real k / of_int steps - 1"
  have k: "real k \<le> of_int steps" using assms by linarith
  have s: "(0::real) < of_int steps" using assms by simp
  have "2 * real k / of_int steps \<le> 2" using k s by (simp add: divide_le_eq)
  moreover have "0 \<le> 2 * real k / real_of_int steps" using s by simp
  ultimately have "\<bar>c\<bar> \<le> 1" by (simp add: c_def abs_le_iff)
  then have "c\<^sup>2 \<le> 1" by (simp add: abs_square_le_1)
  then have "radius\<^sup>2 * c\<^sup>2 \<le> radius\<^sup>2 * 1" by (intro mult_left_mono) simp_all
  moreover have "spiral_spec_y steps radius k = radius * c"
    by (simp add: spiral_spec_y_def c_def algebra_simps)
  ultimately show ?thesis by (simp add: power2_eq_square algebra_simps)
qed

lemma spiral_eq:
  assumes "0 < steps"
  shows "spiral steps radius turns =
     Inr (map (spiral_spec_point steps radius turns) [0..<nat steps])"
proof -
  have pt: "spiral_loop_point radius (2 * radius / of_int steps) (turns * 2 * pi / of_int steps)
      (- radius) 0 = spiral_spec_point steps radius turns"
    by (rule ext) (simp add: spiral_loop_point_def spiral_spec_point_def spiral_spec_y_def Let_def)
  have "spiral_loop (nat steps) radius (2 * radius / of_int steps)
      (turns * 2 * pi / of_int steps) (- radius) 0 [] =
     Inr ([] @ map (spiral_loop_point radius (2 * radius / of_int steps)
        (turns * 2 * pi / of_int steps) (- radius) 0) [0..<nat steps])"
    by (rule spiral_loop_eq) (rule spiral_radicand [OF assms, unfolded spiral_spec_y_def])
  with assms show ?thesis
    by (simp add: spiral_def py_truediv_def Let_def pt)
qed

lemma circle_sq: "(A * cos u)\<^sup>2 + (A * sin u)\<^sup>2 = (A::real)\<^sup>2"
proof -
  have "(A * cos u)\<^sup>2 + (A * sin u)\<^sup>2 = A\<^sup>2 * ((cos u)\<^sup>2 + (sin u)\<^sup>2)"
    by (simp only: power_mult_distrib distrib_left)
  also have "\<dots> = A\<^sup>2" by simp
  finally show ?thesis .
qed

lemma spiral_spec_point_on_sphere:
  assumes "0 < steps" and "k < nat steps"
  shows "(case spiral_spec_point steps radius turns k of
            (x, y, z) \<Rightarrow> x\<^sup>2 + y\<^sup>2 + z\<^sup>2 = radius\<^sup>2)"
proof -
  define y where "y = spiral_spec_y steps radius k"
  define u where "u = real k * (turns * 2 * pi / of_int steps)"
  have nonneg: "0 \<le> radius * radius - y * y"
    unfolding y_def by (rule spiral_radicand [OF assms])
  have "(cos u * sqrt (radius * radius - y * y))\<^sup>2 + y\<^sup>2
      + (sin u * sqrt (radius * radius - y * y))\<^sup>2
      = ((sqrt (radius * radius - y * y) * cos u)\<^sup>2
         + (sqrt (radius * radius - y * y) * sin u)\<^sup>2) + y\<^sup>2"
    by (simp add: mult.commute)
  also have "\<dots> = (sqrt (radius * radius - y * y))\<^sup>2 + y\<^sup>2"
    by (simp only: circle_sq)
  also have "\<dots> = radius\<^sup>2"
    using nonneg by (simp add: power2_eq_square)
  finally show ?thesis
    by (simp add: spiral_spec_point_def Let_def y_def u_def)
qed

subsection \<open>Torus knot\<close>

lemma torus_knot_body_eq:
  "steps \<noteq> 0 \<Longrightarrow>
   torus_knot_body p q R r steps (2 * pi * of_int (max p q)) i =
     Inr (torus_knot_spec_point p q R r steps i)"
  by (simp add: torus_knot_body_def py_truediv_def torus_knot_spec_point_def
      torus_knot_spec_t_def Let_def)

lemma generate_torus_knot_eq:
  "generate_torus_knot p q R r steps =
     Inr (map (torus_knot_spec_point p q R r steps) [0..<nat steps])"
proof (cases "steps \<le> 0")
  case True
  then show ?thesis by (simp add: generate_torus_knot_def)
next
  case False
  then have "steps \<noteq> 0" by simp
  then have "for_range_append (torus_knot_body p q R r steps (2 * pi * of_int (max p q)))
      [0..<nat steps] [] =
     Inr ([] @ map (torus_knot_spec_point p q R r steps) [0..<nat steps])"
    by (intro for_range_append_map torus_knot_body_eq)
  then show ?thesis by (simp add: generate_torus_knot_def)
qed

section \<open>The generators over doubles, in range\<close>

subsection \<open>Operators on finite doubles\<close>

lemma py_bind_simps [simp]:
  "py_bind (Inl e) f = Inl e" "py_bind (Inr v) f = f v"
  by (simp_all add: py_bind_def)

lemma dbl_overflow_gt: "2 ^ 1023 + 2 ^ 1000 < dbl_overflow"
  by (simp add: dbl_overflow_def)

lemma dbl_overflow_small:
  "\<not> dbl_overflow \<le> 0" "\<not> dbl_overflow \<le> 1" "\<not> dbl_overflow \<le> 2"
  using dbl_overflow_gt by simp_all

lemma fl_of_real_Fin: "\<bar>u\<bar> < dbl_overflow \<Longrightarrow> fl_of_real u = Fin u"
  by (auto simp add: fl_of_real_def)

lemma num_float_PyInt: "\<bar>real_of_int n\<bar> < dbl_overflow \<Longrightarrow> num_float (PyInt n) = Inr (Fin (of_int n))"
  by (simp add: num_float_def)

lemma num_float_PyFloat [simp]: "num_float (PyFloat x) = Inr x"
  by (simp add: num_float_def)

lemma num_float_small [simp]:
  "num_float (PyInt 0) = Inr (Fin 0)" "num_float (PyInt 1) = Inr (Fin 1)"
  "num_float (PyInt 2) = Inr (Fin 2)"
  using dbl_overflow_small by (simp_all add: num_float_def)

lemma num_mul_Fin:
  "\<bar>u * v\<bar> < dbl_overflow \<Longrightarrow>
   num_mul (PyFloat (Fin u)) (PyFloat (Fin v)) = Inr (PyFloat (Fin (u * v)))"
  by (simp add: num_mul_def num_arith_def fl_of_real_Fin)

lemma num_mul_int_Fin:
  "\<bar>real_of_int n\<bar> < dbl_overflow \<Longrightarrow> \<bar>of_int n * v\<bar> < dbl_overflow \<Longrightarrow>
   num_mul (PyInt n) (PyFloat (Fin v)) = Inr (PyFloat (Fin (of_int n * v)))"
  by (simp add: num_mul_def num_arith_def fl_of_real_Fin num_float_PyInt)

lemma num_mul_Fin_int:
  "\<bar>real_of_int n\<bar> < dbl_overflow \<Longrightarrow> \<bar>u * of_int n\<bar> < dbl_overflow \<Longrightarrow>
   num_mul (PyFloat (Fin u)) (PyInt n) = Inr (PyFloat (Fin (u * of_int n)))"
  by (simp add: num_mul_def num_arith_def fl_of_real_Fin num_float_PyInt)

lemma num_mul_float_int:
  "\<bar>real_of_int n\<bar> < dbl_overflow \<Longrightarrow>
   num_mul (PyFloat x) (PyInt n) = Inr (PyFloat (fl_mul x (Fin (of_int n))))"
  by (simp add: num_mul_def num_arith_def num_float_PyInt)

lemma num_mul_float_int_overflow:
  "dbl_overflow \<le> \<bar>real_of_int n\<bar> \<Longrightarrow> num_mul (PyFloat x) (PyInt n) = Inl OverflowError"
  by (simp add: num_mul_def num_arith_def num_float_def)

lemma num_add_Fin:
  "\<bar>u + v\<bar> < dbl_overflow \<Longrightarrow>
   num_add (PyFloat (Fin u)) (PyFloat (Fin v)) = Inr (PyFloat (Fin (u + v)))"
  by (simp add: num_add_def num_arith_def fl_of_real_Fin)

lemma num_sin_Fin [simp]: "num_sin (PyFloat (Fin u)) = Inr (PyFloat (Fin (sin u)))"
  by (simp add: num_sin_def)

lemma num_cos_Fin [simp]: "num_cos (PyFloat (Fin u)) = Inr (PyFloat (Fin (cos u)))"
  by (simp add: num_cos_def)

lemma num_truediv_index:
  "0 < steps \<Longrightarrow> i < nat steps \<Longrightarrow>
   num_truediv (PyInt (int i)) (PyInt steps) = Inr (PyFloat (Fin (real i / of_int steps)))"
proof -
  assume s: "0 < steps" and i: "i < nat steps"
  then have "real i < of_int steps" by linarith
  with s have "\<bar>real i / of_int steps\<bar> < 1" by simp
  moreover have "1 < dbl_overflow" using dbl_overflow_gt by simp
  ultimately have "\<not> dbl_overflow \<le> \<bar>real_of_int (int i) / of_int steps\<bar>" by simp
  with s show ?thesis by (simp add: num_truediv_def)
qed

lemma two_pi_fl: "num_mul (PyInt 2) math_pi = Inr (PyFloat (Fin (2 * pi)))"
proof -
  have "pi < 4" using pi_less_4 .
  moreover have "8 < dbl_overflow" using dbl_overflow_gt by simp
  ultimately have "\<bar>real_of_int 2 * pi\<bar> < dbl_overflow" "\<bar>real_of_int 2\<bar> < dbl_overflow"
    using pi_gt_zero by simp_all
  from num_mul_int_Fin [OF this(2) this(1)] show ?thesis by (simp add: math_pi_def)
qed

lemma amp_sin_fl:
  assumes "\<bar>amp\<bar> \<le> 2 ^ 1023"
  shows "num_mul (PyFloat (Fin amp)) (PyFloat (Fin (sin u))) = Inr (PyFloat (Fin (amp * sin u)))"
    and "num_mul (PyFloat (Fin amp)) (PyFloat (Fin (cos u))) = Inr (PyFloat (Fin (amp * cos u)))"
proof -
  have "\<bar>amp * sin u\<bar> \<le> \<bar>amp\<bar> * 1" unfolding abs_mult
    by (intro mult_left_mono) simp_all
  with assms dbl_overflow_gt have "\<bar>amp * sin u\<bar> < dbl_overflow" by simp
  then show "num_mul (PyFloat (Fin amp)) (PyFloat (Fin (sin u))) = Inr (PyFloat (Fin (amp * sin u)))"
    by (rule num_mul_Fin)
  have "\<bar>amp * cos u\<bar> \<le> \<bar>amp\<bar> * 1" unfolding abs_mult
    by (intro mult_left_mono) simp_all
  with assms dbl_overflow_gt have "\<bar>amp * cos u\<bar> < dbl_overflow" by simp
  then show "num_mul (PyFloat (Fin amp)) (PyFloat (Fin (cos u))) = Inr (PyFloat (Fin (amp * cos u)))"
    by (rule num_mul_Fin)
qed

lemma frequency_times_t_fl:
  assumes "\<bar>of_int m * t\<bar> \<le> 2 ^ 259" and "0 < m" "m \<le> 2 ^ 64"
  shows "num_mul (PyInt m) (PyFloat (Fin t)) = Inr (PyFloat (Fin (of_int m * t)))"
proof -
  have "real_of_int m \<le> 2 ^ 64" using assms(3) by (metis of_int_le_iff of_int_numeral of_int_power)
  moreover have "(2::real) ^ 64 < dbl_overflow" "(2::real) ^ 259 < dbl_overflow"
    using dbl_overflow_gt by simp_all
  ultimately have "\<bar>real_of_int m\<bar> < dbl_overflow" "\<bar>of_int m * t\<bar> < dbl_overflow"
    using assms by simp_all
  then show ?thesis by (rule num_mul_int_Fin)
qed

lemma add_phase_fl:
  assumes "\<bar>v\<bar> \<le> 2 ^ 259" and "\<bar>phase\<bar> \<le> 2 ^ 1023"
  shows "num_add (PyFloat (Fin v)) (PyFloat (Fin phase)) = Inr (PyFloat (Fin (v + phase)))"
proof -
  have "\<bar>v + phase\<bar> \<le> 2 ^ 259 + 2 ^ 1023" using assms by linarith
  moreover have "(2::real) ^ 259 + 2 ^ 1023 < dbl_overflow" using dbl_overflow_gt by simp
  ultimately have "\<bar>v + phase\<bar> < dbl_overflow" by linarith
  then show ?thesis by (rule num_add_Fin)
qed

lemma t_fl:
  assumes "0 \<le> u * tm" "u * tm \<le> 2 ^ 195"
  shows "num_mul (PyFloat (Fin u)) (PyFloat (Fin tm)) = Inr (PyFloat (Fin (u * tm)))"
proof -
  have "(2::real) ^ 195 < dbl_overflow" using dbl_overflow_gt by simp
  with assms have "\<bar>u * tm\<bar> < dbl_overflow" by simp
  then show ?thesis by (rule num_mul_Fin)
qed

lemma t_max_fl:
  fixes P :: int
  assumes "0 < P" "P \<le> 2 ^ 192"
  shows "num_mul (PyFloat (Fin (2 * pi))) (PyInt P) = Inr (PyFloat (Fin (2 * pi * of_int P)))"
proof -
  have P: "real_of_int P \<le> 2 ^ 192" using assms(2) by (metis of_int_le_iff of_int_numeral of_int_power)
  have "2 * pi \<le> 8" using pi_less_4 by simp
  with P have "2 * pi * real_of_int P \<le> 8 * 2 ^ 192"
    using assms(1) by (intro mult_mono) simp_all
  moreover have "0 \<le> 2 * pi * real_of_int P" using assms(1) by simp
  moreover have "(8::real) * 2 ^ 192 < dbl_overflow" "(2::real) ^ 192 < dbl_overflow"
    using dbl_overflow_gt by simp_all
  ultimately have "\<bar>real_of_int P\<bar> < dbl_overflow" "\<bar>2 * pi * real_of_int P\<bar> < dbl_overflow"
    using P assms(1) by simp_all
  then show ?thesis by (rule num_mul_Fin_int)
qed

subsection \<open>Bounds on the samples\<close>

lemma lcm_le_mult:
  fixes a b :: int
  assumes "0 < a" "0 < b"
  shows "0 < lcm a b" "lcm a b \<le> a * b"
proof -
  from assms show "0 < lcm a b"
    by (simp add: lcm_pos_int)
  have "lcm a b dvd a * b" by (rule lcm_least) simp_all
  moreover from assms have "0 < a * b" by simp
  ultimately show "lcm a b \<le> a * b" by (rule zdvd_imp_le)
qed

lemma period_bound:
  fixes a b c :: int
  assumes "0 < a" "a \<le> 2 ^ 64" "0 < b" "b \<le> 2 ^ 64" "0 < c" "c \<le> 2 ^ 64"
  shows "0 < lcm (lcm a b) c" "lcm (lcm a b) c \<le> 2 ^ 192"
proof -
  have ab: "0 < lcm a b" "lcm a b \<le> a * b" using assms by (simp_all add: lcm_le_mult)
  show "0 < lcm (lcm a b) c" using ab(1) assms by (simp add: lcm_le_mult)
  have "lcm (lcm a b) c \<le> lcm a b * c" using ab(1) assms by (simp add: lcm_le_mult)
  also have "\<dots> \<le> (a * b) * c" using ab(2) assms by (simp add: mult_right_mono)
  also have "a * b \<le> 2 ^ 64 * 2 ^ 64" using assms by (intro mult_mono) simp_all
  then have "(a * b) * c \<le> (2 ^ 64 * 2 ^ 64) * 2 ^ 64" using assms by (intro mult_mono) simp_all
  finally show "lcm (lcm a b) c \<le> 2 ^ 192" by simp
qed

lemma period_in_range:
  fixes a b c :: int
  assumes "0 < a" "a \<le> 2 ^ 64" "0 < b" "b \<le> 2 ^ 64" "0 < c" "c \<le> 2 ^ 64"
  shows "\<bar>real_of_int (lcm (lcm a b) c)\<bar> < dbl_overflow"
proof -
  note P = period_bound [OF assms]
  have "real_of_int (lcm (lcm a b) c) \<le> 2 ^ 192"
    using P(2) by (metis of_int_le_iff of_int_numeral of_int_power)
  moreover have "(2::real) ^ 192 < dbl_overflow" using dbl_overflow_gt by simp
  ultimately show ?thesis using P(1) by simp
qed

lemma default_period_in_range:
  "\<bar>real_of_int (lcm (lcm 3 4) 5)\<bar> < dbl_overflow"
  "real_of_int (lcm (lcm 3 4) 5) < dbl_overflow"
  using period_in_range [of 3 4 5] by simp_all

lemma winding_bound:
  fixes p q :: int
  assumes "0 < p" "p \<le> 2 ^ 64" "0 < q" "q \<le> 2 ^ 64"
  shows "0 < max p q" "max p q \<le> 2 ^ 192"
proof -
  show "0 < max p q" using assms by simp
  have "max p q \<le> 2 ^ 64" using assms by simp
  also have "(2::int) ^ 64 \<le> 2 ^ 192" by simp
  finally show "max p q \<le> 2 ^ 192" .
qed

lemma sample_bound:
  fixes P steps :: int and m :: int
  assumes P: "0 < P" "P \<le> 2 ^ 192" and s: "0 < steps" and i: "i < nat steps"
    and m: "0 < m" "m \<le> 2 ^ 64"
  defines "t \<equiv> (real i / of_int steps) * (2 * pi * of_int P)"
  shows "0 \<le> t" "t \<le> 2 ^ 195" "\<bar>of_int m * t\<bar> \<le> 2 ^ 259"
proof -
  have d: "0 \<le> real i / of_int steps" "real i / of_int steps \<le> 1"
    using s i by (simp_all add: divide_le_eq) 
  have tm: "0 \<le> 2 * pi * real_of_int P" using P by simp
  have "2 * pi \<le> 8" using pi_less_4 by simp
  moreover have "real_of_int P \<le> 2 ^ 192" using P(2) by (metis of_int_le_iff of_int_numeral of_int_power)
  ultimately have "2 * pi * real_of_int P \<le> 8 * 2 ^ 192"
    using P(1) by (intro mult_mono) simp_all
  then have tm2: "2 * pi * real_of_int P \<le> 2 ^ 195" by simp
  show t0: "0 \<le> t" unfolding t_def using d(1) tm by (rule mult_nonneg_nonneg)
  have "t \<le> 1 * (2 * pi * of_int P)" unfolding t_def using d(2) tm by (rule mult_right_mono)
  with tm2 show t1: "t \<le> 2 ^ 195" by simp
  have "real_of_int m \<le> 2 ^ 64" using m(2) by (metis of_int_le_iff of_int_numeral of_int_power)
  then have "of_int m * t \<le> 2 ^ 64 * 2 ^ 195" using t0 t1 m(1) by (intro mult_mono) simp_all
  moreover have "0 \<le> of_int m * t" using t0 m(1) by simp
  ultimately show "\<bar>of_int m * t\<bar> \<le> 2 ^ 259" by simp
qed

subsection \<open>Lissajous over doubles\<close>

lemma lissajous_body_fl_eq:
  assumes a: "0 < a" "a \<le> 2 ^ 64" and b: "0 < b" "b \<le> 2 ^ 64" and c: "0 < c" "c \<le> 2 ^ 64"
    and s: "0 < steps" and i: "i < nat steps"
    and ph: "\<bar>phase_x\<bar> \<le> 2 ^ 1023" "\<bar>phase_y\<bar> \<le> 2 ^ 1023" "\<bar>phase_z\<bar> \<le> 2 ^ 1023"
    and am: "\<bar>amp_x\<bar> \<le> 2 ^ 1023" "\<bar>amp_y\<bar> \<le> 2 ^ 1023" "\<bar>amp_z\<bar> \<le> 2 ^ 1023"
  shows "lissajous_body_fl a b c (PyFloat (Fin phase_x)) (PyFloat (Fin phase_y)) (PyFloat (Fin phase_z))
       (PyFloat (Fin amp_x)) (PyFloat (Fin amp_y)) (PyFloat (Fin amp_z)) steps
       (PyFloat (Fin (2 * pi * of_int (lcm (lcm a b) c)))) i =
     Inr (fin_point (lissajous_spec_point a b c phase_x phase_y phase_z amp_x amp_y amp_z steps i))"
proof -
  note P = period_bound [OF a b c]
  define t where "t = (real i / of_int steps) * (2 * pi * of_int (lcm (lcm a b) c))"
  note ta = sample_bound [OF P s i a, folded t_def]
  note tb = sample_bound [OF P s i b, folded t_def]
  note tc = sample_bound [OF P s i c, folded t_def]
  have 1: "num_truediv (PyInt (int i)) (PyInt steps) = Inr (PyFloat (Fin (real i / of_int steps)))"
    by (rule num_truediv_index [OF s i])
  have 2: "num_mul (PyFloat (Fin (real i / of_int steps)))
      (PyFloat (Fin (2 * pi * of_int (lcm (lcm a b) c)))) = Inr (PyFloat (Fin t))"
    unfolding t_def by (rule t_fl) (use ta(1,2) in \<open>simp_all add: t_def\<close>)
  note fa = frequency_times_t_fl [OF ta(3) a] add_phase_fl [OF ta(3) ph(1)]
  note fb = frequency_times_t_fl [OF tb(3) b] add_phase_fl [OF tb(3) ph(2)]
  note fc = frequency_times_t_fl [OF tc(3) c] add_phase_fl [OF tc(3) ph(3)]
  have body: "lissajous_body_fl a b c (PyFloat (Fin phase_x)) (PyFloat (Fin phase_y))
       (PyFloat (Fin phase_z)) (PyFloat (Fin amp_x)) (PyFloat (Fin amp_y)) (PyFloat (Fin amp_z)) steps
       (PyFloat (Fin (2 * pi * of_int (lcm (lcm a b) c)))) i =
     Inr (PyFloat (Fin (amp_x * sin (of_int a * t + phase_x))),
          PyFloat (Fin (amp_y * sin (of_int b * t + phase_y))),
          PyFloat (Fin (amp_z * sin (of_int c * t + phase_z))))"
    unfolding lissajous_body_fl_def
    by (simp only: 1 2 fa fb fc py_bind_simps num_sin_Fin amp_sin_fl [OF am(1)]
        amp_sin_fl [OF am(2)] amp_sin_fl [OF am(3)])
  have "lissajous_spec_point a b c phase_x phase_y phase_z amp_x amp_y amp_z steps i =
      (amp_x * sin (of_int a * t + phase_x), amp_y * sin (of_int b * t + phase_y),
       amp_z * sin (of_int c * t + phase_z))"
    unfolding lissajous_spec_point_def lcm_spec_eq Let_def t_def ..
  with body show ?thesis by (simp only: fin_point_def prod.case)
qed

lemma generate_lissajous_fl_eq:
  assumes a: "0 < a" "a \<le> 2 ^ 64" and b: "0 < b" "b \<le> 2 ^ 64" and c: "0 < c" "c \<le> 2 ^ 64"
    and s: "0 < steps"
    and ph: "\<bar>phase_x\<bar> \<le> 2 ^ 1023" "\<bar>phase_y\<bar> \<le> 2 ^ 1023" "\<bar>phase_z\<bar> \<le> 2 ^ 1023"
    and am: "\<bar>amp_x\<bar> \<le> 2 ^ 1023" "\<bar>amp_y\<bar> \<le> 2 ^ 1023" "\<bar>amp_z\<bar> \<le> 2 ^ 1023"
  shows "generate_lissajous_fl a b c (PyFloat (Fin phase_x)) (PyFloat (Fin phase_y))
       (PyFloat (Fin phase_z)) (PyFloat (Fin amp_x)) (PyFloat (Fin amp_y)) (PyFloat (Fin amp_z)) steps =
     Inr (map (\<lambda>i. fin_point
            (lissajous_spec_point a b c phase_x phase_y phase_z amp_x amp_y amp_z steps i))
          [0..<nat steps])"
proof -
  from a b c have g: "gcd a b \<noteq> 0" "gcd (lcm a b) c \<noteq> 0" by simp_all
  note P = period_bound [OF a b c]
  have "for_range_append
      (lissajous_body_fl a b c (PyFloat (Fin phase_x)) (PyFloat (Fin phase_y)) (PyFloat (Fin phase_z))
         (PyFloat (Fin amp_x)) (PyFloat (Fin amp_y)) (PyFloat (Fin amp_z)) steps
         (PyFloat (Fin (2 * pi * of_int (lcm (lcm a b) c))))) [0..<nat steps] [] =
     Inr ([] @ map (\<lambda>i. fin_point
            (lissajous_spec_point a b c phase_x phase_y phase_z amp_x amp_y amp_z steps i))
          [0..<nat steps])"
    by (rule for_range_append_map) (simp add: lissajous_body_fl_eq [OF a b c s _ ph am])
  then show ?thesis
    by (simp add: generate_lissajous_fl_def lcm_py_eq [OF g(1)] lcm_py_eq [OF g(2)] two_pi_fl
        t_max_fl [OF P])
qed

lemma generate_lissajous_fl_overflow:
  "gcd a b \<noteq> 0 \<Longrightarrow> gcd (lcm a b) c \<noteq> 0 \<Longrightarrow> dbl_overflow \<le> \<bar>real_of_int (lcm (lcm a b) c)\<bar> \<Longrightarrow>
   generate_lissajous_fl a b c phase_x phase_y phase_z amp_x amp_y amp_z steps = Inl OverflowError"
  by (simp add: generate_lissajous_fl_def lcm_py_eq two_pi_fl num_mul_float_int_overflow)

lemma generate_lissajous_fl_no_steps:
  "steps \<le> 0 \<Longrightarrow> gcd a b \<noteq> 0 \<Longrightarrow> gcd (lcm a b) c \<noteq> 0 \<Longrightarrow>
   \<bar>real_of_int (lcm (lcm a b) c)\<bar> < dbl_overflow \<Longrightarrow>
   generate_lissajous_fl a b c phase_x phase_y phase_z amp_x amp_y amp_z steps = Inr []"
  by (simp add: generate_lissajous_fl_def lcm_py_eq two_pi_fl num_mul_float_int)

lemma lissajous_body_fl_first:
  assumes "0 < steps" "\<bar>real_of_int a\<bar> < dbl_overflow" "\<bar>real_of_int b\<bar> < dbl_overflow"
    "\<bar>real_of_int c\<bar> < dbl_overflow"
    and ph: "\<bar>phase_x\<bar> < dbl_overflow" "\<bar>phase_y\<bar> < dbl_overflow" "\<bar>phase_z\<bar> < dbl_overflow"
    and am: "\<bar>amp_x\<bar> \<le> 2 ^ 1023" "\<bar>amp_y\<bar> \<le> 2 ^ 1023" "\<bar>amp_z\<bar> \<le> 2 ^ 1023"
  shows "lissajous_body_fl a b c (PyFloat (Fin phase_x)) (PyFloat (Fin phase_y))
       (PyFloat (Fin phase_z)) (PyFloat (Fin amp_x)) (PyFloat (Fin amp_y)) (PyFloat (Fin amp_z)) steps
       (PyFloat (Fin tm)) 0 =
     Inr (PyFloat (Fin (amp_x * sin phase_x)), PyFloat (Fin (amp_y * sin phase_y)),
          PyFloat (Fin (amp_z * sin phase_z)))"
proof -
  have z: "\<bar>0::real\<bar> < dbl_overflow" using dbl_overflow_gt by simp
  have 1: "num_truediv (PyInt (int 0)) (PyInt steps) = Inr (PyFloat (Fin 0))"
    using assms(1) z by (simp add: num_truediv_def)
  have 2: "num_mul (PyFloat (Fin 0)) (PyFloat (Fin tm)) = Inr (PyFloat (Fin 0))"
    using num_mul_Fin [of 0 tm] z by simp
  have 3: "num_mul (PyInt m) (PyFloat (Fin 0)) = Inr (PyFloat (Fin 0))"
    if "\<bar>real_of_int m\<bar> < dbl_overflow" for m
    using num_mul_int_Fin [of m 0] that z by simp
  have 4: "num_add (PyFloat (Fin 0)) (PyFloat (Fin v)) = Inr (PyFloat (Fin v))"
    if "\<bar>v\<bar> < dbl_overflow" for v
    using num_add_Fin [of 0 v] that by simp
  show ?thesis
    unfolding lissajous_body_fl_def
    by (simp only: 1 2 3 [OF assms(2)] 3 [OF assms(3)] 3 [OF assms(4)] 4 [OF ph(1)] 4 [OF ph(2)]
        4 [OF ph(3)] py_bind_simps num_sin_Fin amp_sin_fl [OF am(1)] amp_sin_fl [OF am(2)]
        amp_sin_fl [OF am(3)])
qed

lemma lissajous_body_fl_sin_of_infinity:
  assumes d: "num_truediv (PyInt (int i)) (PyInt steps) = Inr (PyFloat (Fin u))"
    and t: "\<bar>u * tm\<bar> < dbl_overflow"
    and a: "\<bar>real_of_int a\<bar> < dbl_overflow"
    and at: "dbl_overflow \<le> of_int a * (u * tm)"
  shows "lissajous_body_fl a b c (PyFloat (Fin phase_x)) phase_y phase_z amp_x amp_y amp_z steps
       (PyFloat (Fin tm)) i = Inl ValueError"
proof -
  have 2: "num_mul (PyFloat (Fin u)) (PyFloat (Fin tm)) = Inr (PyFloat (Fin (u * tm)))"
    using t by (rule num_mul_Fin)
  have 3: "num_mul (PyInt a) (PyFloat (Fin (u * tm))) = Inr (PyFloat PInf)"
    using a at by (simp add: num_mul_def num_arith_def num_float_def fl_of_real_def)
  have 4: "num_add (PyFloat PInf) (PyFloat (Fin phase_x)) = Inr (PyFloat PInf)"
    by (simp add: num_add_def num_arith_def)
  have 5: "num_sin (PyFloat PInf) = Inl ValueError"
    by (simp add: num_sin_def)
  show ?thesis
    unfolding lissajous_body_fl_def by (simp only: d 2 3 4 5 py_bind_simps)
qed

text \<open>
  Below the threshold of \<^verbatim>\<open>OverflowError\<close> a large frequency still fails: with
  \<open>a = 10\<^sup>1\<^sup>5\<^sup>5\<close> and two steps, \<open>a * t\<close> overflows to infinity at the second sample
  and \<^verbatim>\<open>math.sin\<close> raises \<^verbatim>\<open>ValueError\<close>.
\<close>

lemma generate_lissajous_fl_sin_of_infinity:
  "generate_lissajous_fl (10 ^ 155) 1 1 (PyFloat (Fin 0)) (PyFloat (Fin (pi / 2))) (PyFloat (Fin 0))
     (PyFloat (Fin 100)) (PyFloat (Fin 100)) (PyFloat (Fin 100)) 2 = Inl ValueError"
proof -
  define tm where "tm = 2 * pi * real_of_int (10 ^ 155)"
  have pi_b: "2 \<le> pi" "pi < 4" using pi_ge_two pi_less_4 by simp_all
  have A: "\<bar>real_of_int (10 ^ 155)\<bar> < dbl_overflow"
    by (simp add: dbl_overflow_def)
  have tm_lo: "4 * 10 ^ 155 \<le> tm" and tm_hi: "tm \<le> 8 * 10 ^ 155"
    using pi_b by (simp_all add: tm_def)
  have "(8::real) * 10 ^ 155 < dbl_overflow" by (simp add: dbl_overflow_def)
  with tm_lo tm_hi have TM: "\<bar>2 * pi * real_of_int (10 ^ 155)\<bar> < dbl_overflow"
    unfolding tm_def by linarith
  have tmax: "num_mul (PyFloat (Fin (2 * pi))) (PyInt (10 ^ 155)) = Inr (PyFloat (Fin tm))"
    unfolding tm_def by (rule num_mul_Fin_int [OF A TM])
  have one: "\<bar>real_of_int 1\<bar> < dbl_overflow" "\<bar>0::real\<bar> < dbl_overflow"
    "\<bar>pi / 2\<bar> < dbl_overflow" "\<bar>100::real\<bar> \<le> 2 ^ 1023"
    using dbl_overflow_gt pi_b by simp_all
  have first: "lissajous_body_fl (10 ^ 155) 1 1 (PyFloat (Fin 0)) (PyFloat (Fin (pi / 2)))
      (PyFloat (Fin 0)) (PyFloat (Fin 100)) (PyFloat (Fin 100)) (PyFloat (Fin 100)) 2
      (PyFloat (Fin tm)) 0 =
     Inr (PyFloat (Fin (100 * sin 0)), PyFloat (Fin (100 * sin (pi / 2))), PyFloat (Fin (100 * sin 0)))"
    by (rule lissajous_body_fl_first [OF _ A one(1) one(1) one(2) one(3) one(2) one(4) one(4) one(4)])
       simp
  have d: "num_truediv (PyInt (int 1)) (PyInt 2) = Inr (PyFloat (Fin (1 / 2)))"
    using num_truediv_index [of 2 1] by simp
  have t: "\<bar>1 / 2 * tm\<bar> < dbl_overflow"
    using tm_lo tm_hi \<open>8 * 10 ^ 155 < dbl_overflow\<close> by simp
  have "(10::real) ^ 155 * (2 * 10 ^ 155) \<le> of_int (10 ^ 155) * (1 / 2 * tm)"
    using tm_lo by simp
  moreover have "dbl_overflow \<le> (10::real) ^ 155 * (2 * 10 ^ 155)"
    by (simp add: dbl_overflow_def)
  ultimately have at: "dbl_overflow \<le> of_int (10 ^ 155) * (1 / 2 * tm)" by linarith
  have second: "lissajous_body_fl (10 ^ 155) 1 1 (PyFloat (Fin 0)) (PyFloat (Fin (pi / 2)))
      (PyFloat (Fin 0)) (PyFloat (Fin 100)) (PyFloat (Fin 100)) (PyFloat (Fin 100)) 2
      (PyFloat (Fin tm)) 1 = Inl ValueError"
    by (rule lissajous_body_fl_sin_of_infinity [OF d t A at])
  have range2: "[0..<nat 2] = [0, 1]" by (simp add: upt_rec)
  have g: "gcd ((10::int) ^ 155) 1 \<noteq> 0" "gcd (lcm ((10::int) ^ 155) 1) 1 \<noteq> 0" by simp_all
  have P: "lcm (lcm ((10::int) ^ 155) 1) 1 = 10 ^ 155" by simp
  show ?thesis
    unfolding generate_lissajous_fl_def
    by (simp only: lcm_py_eq [OF g(1)] lcm_py_eq [OF g(2)] py_bind_simps two_pi_fl P
        tmax range2 for_range_append.simps first second sum.case)
qed

subsection \<open>Torus knot over doubles\<close>

lemma tube_fl:
  assumes "\<bar>R\<bar> \<le> 2 ^ 1022" "\<bar>r\<bar> \<le> 2 ^ 1022"
  shows "num_mul (PyFloat (Fin r)) (PyFloat (Fin (cos u))) = Inr (PyFloat (Fin (r * cos u)))"
    and "num_mul (PyFloat (Fin r)) (PyFloat (Fin (sin u))) = Inr (PyFloat (Fin (r * sin u)))"
    and "num_add (PyFloat (Fin R)) (PyFloat (Fin (r * cos u))) = Inr (PyFloat (Fin (R + r * cos u)))"
    and "num_mul (PyFloat (Fin (R + r * cos u))) (PyFloat (Fin (cos v))) =
           Inr (PyFloat (Fin ((R + r * cos u) * cos v)))"
    and "num_mul (PyFloat (Fin (R + r * cos u))) (PyFloat (Fin (sin v))) =
           Inr (PyFloat (Fin ((R + r * cos u) * sin v)))"
proof -
  from assms(2) have r: "\<bar>r\<bar> \<le> 2 ^ 1023" by simp
  show "num_mul (PyFloat (Fin r)) (PyFloat (Fin (cos u))) = Inr (PyFloat (Fin (r * cos u)))"
    and "num_mul (PyFloat (Fin r)) (PyFloat (Fin (sin u))) = Inr (PyFloat (Fin (r * sin u)))"
    by (rule amp_sin_fl [OF r])+
  have "\<bar>r * cos u\<bar> \<le> \<bar>r\<bar> * 1" unfolding abs_mult
    by (intro mult_left_mono) simp_all
  with assms have tube: "\<bar>R + r * cos u\<bar> \<le> 2 ^ 1023" by simp
  with dbl_overflow_gt have "\<bar>R + r * cos u\<bar> < dbl_overflow" by simp
  then show "num_add (PyFloat (Fin R)) (PyFloat (Fin (r * cos u))) =
      Inr (PyFloat (Fin (R + r * cos u)))"
    by (rule num_add_Fin)
  show "num_mul (PyFloat (Fin (R + r * cos u))) (PyFloat (Fin (cos v))) =
           Inr (PyFloat (Fin ((R + r * cos u) * cos v)))"
    and "num_mul (PyFloat (Fin (R + r * cos u))) (PyFloat (Fin (sin v))) =
           Inr (PyFloat (Fin ((R + r * cos u) * sin v)))"
    by (rule amp_sin_fl [OF tube])+
qed

lemma torus_knot_body_fl_eq:
  assumes p: "0 < p" "p \<le> 2 ^ 64" and q: "0 < q" "q \<le> 2 ^ 64"
    and s: "0 < steps" and i: "i < nat steps"
    and R: "\<bar>R\<bar> \<le> 2 ^ 1022" and r: "\<bar>r\<bar> \<le> 2 ^ 1022"
  shows "torus_knot_body_fl p q (PyFloat (Fin R)) (PyFloat (Fin r)) steps
       (PyFloat (Fin (2 * pi * of_int (max p q)))) i =
     Inr (fin_point (torus_knot_spec_point p q R r steps i))"
proof -
  note P = winding_bound [OF p q]
  define t where "t = (real i / of_int steps) * (2 * pi * of_int (max p q))"
  note tp = sample_bound [OF P s i p, folded t_def]
  note tq = sample_bound [OF P s i q, folded t_def]
  have 1: "num_truediv (PyInt (int i)) (PyInt steps) = Inr (PyFloat (Fin (real i / of_int steps)))"
    by (rule num_truediv_index [OF s i])
  have 2: "num_mul (PyFloat (Fin (real i / of_int steps)))
      (PyFloat (Fin (2 * pi * of_int (max p q)))) = Inr (PyFloat (Fin t))"
    unfolding t_def by (rule t_fl) (use tp(1,2) in \<open>simp_all add: t_def\<close>)
  note fp = frequency_times_t_fl [OF tp(3) p]
  note fq = frequency_times_t_fl [OF tq(3) q]
  have body: "torus_knot_body_fl p q (PyFloat (Fin R)) (PyFloat (Fin r)) steps
       (PyFloat (Fin (2 * pi * of_int (max p q)))) i =
     Inr (PyFloat (Fin ((R + r * cos (of_int p * t)) * cos (of_int q * t))),
          PyFloat (Fin ((R + r * cos (of_int p * t)) * sin (of_int q * t))),
          PyFloat (Fin (r * sin (of_int p * t))))"
    unfolding torus_knot_body_fl_def
    by (simp only: 1 2 fp fq py_bind_simps num_sin_Fin num_cos_Fin tube_fl [OF R r])
  have "torus_knot_spec_point p q R r steps i =
      ((R + r * cos (of_int p * t)) * cos (of_int q * t),
       (R + r * cos (of_int p * t)) * sin (of_int q * t), r * sin (of_int p * t))"
    unfolding torus_knot_spec_point_def torus_knot_spec_t_def Let_def t_def ..
  with body show ?thesis by (simp only: fin_point_def prod.case)
qed

lemma generate_torus_knot_fl_eq:
  assumes p: "0 < p" "p \<le> 2 ^ 64" and q: "0 < q" "q \<le> 2 ^ 64"
    and s: "0 < steps" and R: "\<bar>R\<bar> \<le> 2 ^ 1022" and r: "\<bar>r\<bar> \<le> 2 ^ 1022"
  shows "generate_torus_knot_fl p q (PyFloat (Fin R)) (PyFloat (Fin r)) steps =
     Inr (map (\<lambda>i. fin_point (torus_knot_spec_point p q R r steps i)) [0..<nat steps])"
proof -
  note P = winding_bound [OF p q]
  have "for_range_append
      (torus_knot_body_fl p q (PyFloat (Fin R)) (PyFloat (Fin r)) steps
         (PyFloat (Fin (2 * pi * of_int (max p q))))) [0..<nat steps] [] =
     Inr ([] @ map (\<lambda>i. fin_point (torus_knot_spec_point p q R r steps i)) [0..<nat steps])"
    by (rule for_range_append_map) (simp add: torus_knot_body_fl_eq [OF p q s _ R r])
  then show ?thesis
    by (simp add: generate_torus_knot_fl_def two_pi_fl t_max_fl [OF P])
qed

lemma generate_torus_knot_fl_overflow:
  "dbl_overflow \<le> \<bar>real_of_int (max p q)\<bar> \<Longrightarrow>
   generate_torus_knot_fl p q R r steps = Inl OverflowError"
  by (simp add: generate_torus_knot_fl_def two_pi_fl num_mul_float_int_overflow)

lemma generate_torus_knot_fl_no_steps:
  "steps \<le> 0 \<Longrightarrow> \<bar>real_of_int (max p q)\<bar> < dbl_overflow \<Longrightarrow>
   generate_torus_knot_fl p q R r steps = Inr []"
  by (simp add: generate_torus_knot_fl_def two_pi_fl num_mul_float_int)

subsection \<open>Spiral over doubles\<close>

lemma spiral_fl_zero_steps:
  assumes "doubled_in_range radius"
  shows "spiral_fl 0 radius turns = Inl ZeroDivisionError"
proof (cases radius)
  case (PyInt n)
  then show ?thesis
    by (simp add: spiral_fl_def num_mul_def num_arith_def num_truediv_def)
next
  case (PyFloat x)
  then show ?thesis
    by (simp add: spiral_fl_def num_mul_def num_arith_def num_truediv_def)
qed

lemma y_step_fl:
  assumes "steps < 0" "\<bar>real_of_int steps\<bar> < dbl_overflow" "doubled_in_range radius"
  shows "\<exists>two_radius y_step. num_mul (PyInt 2) radius = Inr two_radius
     \<and> num_truediv two_radius (PyInt steps) = Inr y_step"
proof (cases radius)
  case (PyInt n)
  from assms(1) have "1 \<le> \<bar>real_of_int steps\<bar>" by linarith
  then have "\<bar>real_of_int (2 * n)\<bar> / \<bar>real_of_int steps\<bar> \<le> \<bar>real_of_int (2 * n)\<bar> / 1"
    by (intro frac_le) simp_all
  then have "\<bar>real_of_int (2 * n) / real_of_int steps\<bar> \<le> \<bar>real_of_int (2 * n)\<bar>"
    by (simp only: abs_divide div_by_1)
  with assms(3) PyInt have "\<bar>real_of_int (2 * n) / real_of_int steps\<bar> < dbl_overflow"
    by (simp add: doubled_in_range_def del: of_int_mult)
  with assms(1) PyInt show ?thesis
    by (simp add: num_mul_def num_arith_def num_truediv_def del: of_int_mult)
next
  case (PyFloat x)
  with assms show ?thesis
    by (simp add: num_mul_def num_arith_def num_truediv_def num_float_def dbl_overflow_small)
qed

lemma turn_angle_step_fl:
  assumes "steps < 0" "\<bar>real_of_int steps\<bar> < dbl_overflow" "doubled_in_range turns"
  shows "\<exists>turns2 turns2pi turn_angle_step. num_mul turns (PyInt 2) = Inr turns2
     \<and> num_mul turns2 math_pi = Inr turns2pi
     \<and> num_truediv turns2pi (PyInt steps) = Inr turn_angle_step"
proof (cases turns)
  case (PyInt n)
  with assms show ?thesis
    by (simp add: num_mul_def num_arith_def num_truediv_def num_float_def math_pi_def
        doubled_in_range_def mult.commute dbl_overflow_small del: of_int_mult)
next
  case (PyFloat x)
  with assms show ?thesis
    by (simp add: num_mul_def num_arith_def num_truediv_def num_float_def math_pi_def
        dbl_overflow_small)
qed

lemma spiral_fl_negative_steps:
  assumes "steps < 0" "\<bar>real_of_int steps\<bar> < dbl_overflow"
    "doubled_in_range radius" "doubled_in_range turns"
  shows "spiral_fl steps radius turns = Inr []"
proof -
  from y_step_fl [OF assms(1,2,3)] obtain two_radius y_step where
    1: "num_mul (PyInt 2) radius = Inr two_radius"
    "num_truediv two_radius (PyInt steps) = Inr y_step" by blast
  from turn_angle_step_fl [OF assms(1,2,4)] obtain turns2 turns2pi turn_angle_step where
    2: "num_mul turns (PyInt 2) = Inr turns2" "num_mul turns2 math_pi = Inr turns2pi"
    "num_truediv turns2pi (PyInt steps) = Inr turn_angle_step" by blast
  from assms(1) have "nat steps = 0" by simp
  then show ?thesis by (simp add: spiral_fl_def 1 2 Let_def)
qed






section \<open>The claims\<close>

subsection \<open>Spiral: the square root\<close>




subsection \<open>Validation in the entry points\<close>




subsection \<open>Lissajous\<close>

text \<open>
  Claim C3, as the code has it. For positive \<open>a\<close>, \<open>b\<close>, \<open>c\<close> up to \<open>2\<^sup>6\<^sup>4\<close>, finite
  phases and amplitudes of magnitude up to \<open>2\<^sup>1\<^sup>0\<^sup>2\<^sup>3\<close> and positive \<open>steps\<close>,
  \<^const>\<open>generate_lissajous_fl\<close> returns \<open>steps\<close> points; the \<open>i\<close>-th is
  \<open>(amp_x * sin (a * t\<^sub>i + phase_x), amp_y * sin (b * t\<^sub>i + phase_y),
  amp_z * sin (c * t\<^sub>i + phase_z))\<close> with \<open>t\<^sub>i = (i / steps) * 2\<pi> * period\<close> and
  \<open>period = lcm (lcm a b) c\<close>, where \<open>lcm m n = |m * n| div gcd m n\<close> is the least common
  multiple; the first point is \<open>(amp_x * sin phase_x, amp_y * sin phase_y,
  amp_z * sin phase_z)\<close>. Nothing bounds the frequencies in the code, and beyond the
  range of doubles the function raises.
\<close>

theorem generate_lissajous_sequence:
  assumes "0 < a" "a \<le> 2 ^ 64" and "0 < b" "b \<le> 2 ^ 64" and "0 < c" "c \<le> 2 ^ 64"
    and "0 < steps"
    and "\<bar>phase_x\<bar> \<le> 2 ^ 1023" "\<bar>phase_y\<bar> \<le> 2 ^ 1023" "\<bar>phase_z\<bar> \<le> 2 ^ 1023"
    and "\<bar>amp_x\<bar> \<le> 2 ^ 1023" "\<bar>amp_y\<bar> \<le> 2 ^ 1023" "\<bar>amp_z\<bar> \<le> 2 ^ 1023"
  shows "\<exists>pts. generate_lissajous_fl a b c
         (PyFloat (Fin phase_x)) (PyFloat (Fin phase_y)) (PyFloat (Fin phase_z))
         (PyFloat (Fin amp_x)) (PyFloat (Fin amp_y)) (PyFloat (Fin amp_z)) steps = Inr pts
     \<and> length pts = nat steps
     \<and> (\<forall>i<nat steps. pts ! i = fin_point
           (lissajous_spec_point a b c phase_x phase_y phase_z amp_x amp_y amp_z steps i))
     \<and> pts ! 0 = fin_point (amp_x * sin phase_x, amp_y * sin phase_y, amp_z * sin phase_z)
     \<and> lcm_spec (lcm_spec a b) c = lcm (lcm a b) c"
proof -
  from assms(7) have pos: "0 < nat steps" by simp
  let ?pts = "map (\<lambda>i. fin_point
      (lissajous_spec_point a b c phase_x phase_y phase_z amp_x amp_y amp_z steps i))
      [0..<nat steps]"
  have "generate_lissajous_fl a b c
         (PyFloat (Fin phase_x)) (PyFloat (Fin phase_y)) (PyFloat (Fin phase_z))
         (PyFloat (Fin amp_x)) (PyFloat (Fin amp_y)) (PyFloat (Fin amp_z)) steps = Inr ?pts"
    by (rule generate_lissajous_fl_eq [OF assms])
  moreover have "length ?pts = nat steps" by simp
  moreover have "\<forall>i<nat steps. ?pts ! i = fin_point
      (lissajous_spec_point a b c phase_x phase_y phase_z amp_x amp_y amp_z steps i)"
    by simp
  moreover have "?pts ! 0 =
      fin_point (amp_x * sin phase_x, amp_y * sin phase_y, amp_z * sin phase_z)"
    using pos by (simp add: lissajous_spec_point_0)
  moreover have "lcm_spec (lcm_spec a b) c = lcm (lcm a b) c"
    by (simp add: lcm_spec_eq)
  ultimately show ?thesis by blast
qed

text \<open>The theorem at the default frequencies \<open>3, 4, 5\<close>, phases and amplitudes, with two steps.\<close>

theorem generate_lissajous_sequence_witness:
  "\<exists>pts. generate_lissajous_fl 3 4 5 (PyFloat (Fin 0)) (PyFloat (Fin (pi / 2))) (PyFloat (Fin 0))
        (PyFloat (Fin 100)) (PyFloat (Fin 100)) (PyFloat (Fin 100)) 2 = Inr pts
     \<and> length pts = 2
     \<and> pts ! 0 = (PyFloat (Fin 0), PyFloat (Fin 100), PyFloat (Fin 0))
     \<and> pts ! 1 = fin_point (lissajous_spec_point 3 4 5 0 (pi / 2) 0 100 100 100 2 1)"
proof -
  have "\<bar>pi / 2\<bar> \<le> 2 ^ 1023" using pi_less_4 pi_gt_zero by simp
  from generate_lissajous_sequence [of 3 4 5 2 0 "pi / 2" 0 100 100 100, OF _ _ _ _ _ _ _ _ this]
  show ?thesis by (auto simp add: fin_point_def)
qed

text \<open>
  Against claim C3: with the positive frequency \<open>a = 10\<^sup>3\<^sup>0\<^sup>9\<close> the period does not
  convert to a float, and \<open>t_max = 2 * math.pi * period\<close> raises \<^verbatim>\<open>OverflowError\<close>.
\<close>

theorem generate_lissajous_huge_frequency:
  "generate_lissajous_fl (10 ^ 309) 1 1 (PyFloat (Fin 0)) (PyFloat (Fin (pi / 2))) (PyFloat (Fin 0))
     (PyFloat (Fin 100)) (PyFloat (Fin 100)) (PyFloat (Fin 100)) 1 = Inl OverflowError"
proof -
  have "dbl_overflow \<le> \<bar>real_of_int (lcm (lcm (10 ^ 309) 1) 1)\<bar>"
    by (simp add: dbl_overflow_def)
  then show ?thesis
    by (intro generate_lissajous_fl_overflow) simp_all
qed

subsection \<open>Lorenz\<close>

text \<open>
  Claim C4. \<^const>\<open>lorenz_attractor\<close> returns \<open>steps\<close> points, the \<open>i\<close>-th being the
  state after \<open>i\<close> explicit Euler steps from \<open>(0.1, 0, 0)\<close>, scaled by \<open>10\<close>: each
  iteration emits the state it starts from and only then advances it, all three
  derivatives being taken at the state emitted. For \<open>steps > 0\<close> the first point is
  \<open>(1, 0, 0)\<close>.
\<close>

theorem lorenz_attractor_euler:
  "lorenz_attractor steps dt = lorenz_spec steps dt
   \<and> length (lorenz_attractor steps dt) = nat steps
   \<and> (0 < steps \<longrightarrow> hd (lorenz_attractor steps dt) = (1, 0, 0))"
proof -
  have len: "length (lorenz_spec steps dt) = nat steps"
    by (simp add: lorenz_spec_def)
  have first: "hd (lorenz_spec steps dt) = (1, 0, 0)" if "0 < steps"
  proof -
    from that obtain m where m: "nat steps = Suc m"
      by (cases "nat steps") auto
    show ?thesis
      by (simp add: lorenz_spec_def m map_upt_Suc scaled_spec_def del: upt_Suc)
  qed
  from len first show ?thesis by (simp add: lorenz_attractor_eq)
qed

text \<open>The theorem at \<open>steps = 1\<close>, \<open>dt = 0.01\<close>: the single point is \<open>(1, 0, 0)\<close>.\<close>

theorem lorenz_attractor_euler_witness:
  "(0::int) < 1 \<and> lorenz_attractor 1 (1 / 100) = [(1, 0, 0)]"
proof -
  note e = lorenz_attractor_euler [of 1 "1 / 100"]
  have len: "length (lorenz_attractor 1 (1 / 100)) = 1"
    using e [THEN conjunct2, THEN conjunct1] by simp
  have first: "hd (lorenz_attractor 1 (1 / 100)) = (1, 0, 0)"
    using e [THEN conjunct2, THEN conjunct2] by simp
  from len first show ?thesis
    by (cases "lorenz_attractor 1 (1 / 100)") simp_all
qed

subsection \<open>Torus knot\<close>

text \<open>
  Claim C5, as the code has it. For positive \<open>p\<close>, \<open>q\<close> up to \<open>2\<^sup>6\<^sup>4\<close>, finite radii
  of magnitude up to \<open>2\<^sup>1\<^sup>0\<^sup>2\<^sup>2\<close> and positive \<open>steps\<close>,
  \<^const>\<open>generate_torus_knot_fl\<close> returns the \<open>steps\<close> points
  \<open>((R + r * cos (p * t\<^sub>i)) * cos (q * t\<^sub>i), (R + r * cos (p * t\<^sub>i)) * sin (q * t\<^sub>i),
  r * sin (p * t\<^sub>i))\<close> for \<open>t\<^sub>i = (i / steps) * 2\<pi> * max p q\<close>, \<open>0 \<le> i < steps\<close>. Nothing
  bounds the winding numbers in the code, and beyond the range of doubles the function
  raises.
\<close>

theorem generate_torus_knot_sequence:
  assumes "0 < p" "p \<le> 2 ^ 64" and "0 < q" "q \<le> 2 ^ 64" and "0 < steps"
    and "\<bar>R\<bar> \<le> 2 ^ 1022" and "\<bar>r\<bar> \<le> 2 ^ 1022"
  shows "\<exists>pts. generate_torus_knot_fl p q (PyFloat (Fin R)) (PyFloat (Fin r)) steps = Inr pts
     \<and> length pts = nat steps
     \<and> (\<forall>i<nat steps. pts ! i = fin_point (torus_knot_spec_point p q R r steps i))"
  by (simp add: generate_torus_knot_fl_eq [OF assms])

text \<open>The theorem at \<open>p = 3\<close>, \<open>q = 2\<close>, \<open>R = 100\<close>, \<open>r = 50\<close>, \<open>steps = 4\<close>.\<close>

theorem generate_torus_knot_sequence_witness:
  "\<exists>pts. generate_torus_knot_fl 3 2 (PyFloat (Fin 100)) (PyFloat (Fin 50)) 4 = Inr pts
     \<and> length pts = 4
     \<and> pts ! 0 = (PyFloat (Fin 150), PyFloat (Fin 0), PyFloat (Fin 0))
     \<and> pts ! 1 = fin_point (torus_knot_spec_point 3 2 100 50 4 1)"
  using generate_torus_knot_sequence [of 3 2 4 100 50]
  by (auto simp add: fin_point_def torus_knot_spec_point_def torus_knot_spec_t_def)

text \<open>
  Against claim C5: with the positive winding number \<open>p = 10\<^sup>3\<^sup>0\<^sup>9\<close>,
  \<open>t_max = 2 * math.pi * max(p, q)\<close> raises \<^verbatim>\<open>OverflowError\<close>.
\<close>

theorem generate_torus_knot_huge_winding:
  "generate_torus_knot_fl (10 ^ 309) 2 (PyFloat (Fin 100)) (PyFloat (Fin 50)) 1 = Inl OverflowError"
proof -
  have "dbl_overflow \<le> \<bar>real_of_int (max (10 ^ 309) 2)\<bar>"
    by (simp add: dbl_overflow_def)
  then show ?thesis by (rule generate_torus_knot_fl_overflow)
qed

text \<open>
  Claim C6. Every point \<open>(x, y, z)\<close> of the torus knot satisfies
  \<open>x\<^sup>2 + y\<^sup>2 = (R + r * cos (p * t))\<^sup>2\<close> at its parameter value \<open>t\<close>.
\<close>

theorem torus_knot_cross_section:
  "\<exists>pts. generate_torus_knot p q R r steps = Inr pts \<and> length pts = nat steps \<and>
     (\<forall>i<nat steps.
        (case pts ! i of (x, y, z) \<Rightarrow>
           x\<^sup>2 + y\<^sup>2 = (R + r * cos (of_int p * torus_knot_spec_t p q steps i))\<^sup>2))"
  by (simp add: generate_torus_knot_eq torus_knot_spec_point_def Let_def circle_sq)

text \<open>The theorem at \<open>p = 3\<close>, \<open>q = 2\<close>, \<open>R = 100\<close>, \<open>r = 50\<close>, \<open>steps = 4\<close>, for the point of index \<open>1\<close>.\<close>

theorem torus_knot_cross_section_witness:
  "\<exists>pts. generate_torus_knot 3 2 100 50 4 = Inr pts \<and> length pts = 4 \<and> (1::nat) < nat 4 \<and>
     (case pts ! 1 of (x, y, z) \<Rightarrow>
        x\<^sup>2 + y\<^sup>2 = (100 + 50 * cos (3 * torus_knot_spec_t 3 2 4 1))\<^sup>2)"
  using torus_knot_cross_section [of 3 2 100 50 4] by auto

subsection \<open>Non-positive step counts\<close>

text \<open>
  Claim C8, as the code has it. For \<open>steps \<le> 0\<close>, \<^const>\<open>lorenz_attractor\<close> returns
  the empty list; \<^const>\<open>generate_torus_knot_fl\<close> does when \<open>max p q\<close> converts to a
  float; \<^const>\<open>generate_lissajous_fl\<close> does when neither of its two \<open>gcd\<close>s is zero
  and the period converts to a float; \<^const>\<open>spiral_fl\<close> does for \<open>steps < 0\<close> when
  \<open>steps\<close> converts to a float and the radius and the turns are floats or \<^verbatim>\<open>int\<close>s
  whose double is in range.
\<close>

theorem nonpositive_steps_empty:
  assumes "steps \<le> 0"
  shows "lorenz_attractor steps dt = []
     \<and> (\<bar>real_of_int (max p q)\<bar> < dbl_overflow \<longrightarrow>
          generate_torus_knot_fl p q R r steps = Inr [])
     \<and> (gcd a b \<noteq> 0 \<and> gcd (lcm a b) c \<noteq> 0
          \<and> \<bar>real_of_int (lcm (lcm a b) c)\<bar> < dbl_overflow \<longrightarrow>
          generate_lissajous_fl a b c phase_x phase_y phase_z amp_x amp_y amp_z steps = Inr [])
     \<and> (steps < 0 \<and> \<bar>real_of_int steps\<bar> < dbl_overflow
          \<and> doubled_in_range radius \<and> doubled_in_range turns \<longrightarrow>
          spiral_fl steps radius turns = Inr [])"
proof -
  from assms have n: "nat steps = 0" by simp
  have "lorenz_attractor steps dt = []"
    by (simp add: lorenz_attractor_def n)
  with assms show ?thesis
    by (simp add: generate_torus_knot_fl_no_steps generate_lissajous_fl_no_steps
        spiral_fl_negative_steps)
qed

text \<open>The theorem at \<open>steps = -5\<close> and the default parameters of the scripts.\<close>

theorem nonpositive_steps_empty_witness:
  "lorenz_attractor (- 5) (1 / 100) = []
   \<and> generate_torus_knot_fl 3 2 (PyFloat (Fin 100)) (PyFloat (Fin 50)) (- 5) = Inr []
   \<and> generate_lissajous_fl 3 4 5 (PyFloat (Fin 0)) (PyFloat (Fin (pi / 2))) (PyFloat (Fin 0))
       (PyFloat (Fin 100)) (PyFloat (Fin 100)) (PyFloat (Fin 100)) (- 5) = Inr []
   \<and> spiral_fl (- 5) (PyInt 200) (PyInt 30) = Inr []"
proof -
  have 1: "(- 5::int) \<le> 0" "\<bar>real_of_int (max 3 2)\<bar> < dbl_overflow"
    by (simp_all add: dbl_overflow_def)
  have 2: "gcd (3::int) 4 \<noteq> 0 \<and> gcd (lcm (3::int) 4) 5 \<noteq> 0
       \<and> \<bar>real_of_int (lcm (lcm 3 4) 5)\<bar> < dbl_overflow"
    by (simp add: default_period_in_range)
  have 3: "(- 5::int) < 0 \<and> \<bar>real_of_int (- 5)\<bar> < dbl_overflow
       \<and> doubled_in_range (PyInt 200) \<and> doubled_in_range (PyInt 30)"
    by (simp add: dbl_overflow_def doubled_in_range_def)
  note 1 2 3
  with nonpositive_steps_empty [of "- 5" "1 / 100" 3 2 "PyFloat (Fin 100)" "PyFloat (Fin 50)"
      3 4 5 "PyFloat (Fin 0)" "PyFloat (Fin (pi / 2))" "PyFloat (Fin 0)"
      "PyFloat (Fin 100)" "PyFloat (Fin 100)" "PyFloat (Fin 100)" "PyInt 200" "PyInt 30"]
  show ?thesis by blast
qed

text \<open>
  Against claim C8: \<^verbatim>\<open>spiral(0, 200, 30)\<close> does not return the empty list, it raises
  \<^verbatim>\<open>ZeroDivisionError\<close> when it computes \<open>y_step = (2 * radius) / steps\<close>, before the
  loop.
\<close>

theorem spiral_zero_steps_raises: "spiral_fl 0 (PyInt 200) (PyInt 30) = Inl ZeroDivisionError"
  by (rule spiral_fl_zero_steps) (simp add: doubled_in_range_def dbl_overflow_def)

subsection \<open>Spiral: the sphere\<close>

text \<open>
  Claim C9. For \<open>steps > 0\<close>, every point \<open>(x, y, z)\<close> that \<^const>\<open>spiral\<close> returns
  lies on the sphere of the given radius: \<open>x\<^sup>2 + y\<^sup>2 + z\<^sup>2 = radius\<^sup>2\<close>.
\<close>

theorem spiral_on_sphere:
  assumes "0 < steps"
  shows "\<exists>pts. spiral steps radius turns = Inr pts \<and> length pts = nat steps
     \<and> pts = map (spiral_spec_point steps radius turns) [0..<nat steps]
     \<and> (\<forall>pt \<in> set pts. case pt of (x, y, z) \<Rightarrow> x\<^sup>2 + y\<^sup>2 + z\<^sup>2 = radius\<^sup>2)"
proof -
  have "\<forall>pt \<in> set (map (spiral_spec_point steps radius turns) [0..<nat steps]).
      case pt of (x, y, z) \<Rightarrow> x\<^sup>2 + y\<^sup>2 + z\<^sup>2 = radius\<^sup>2"
    using spiral_spec_point_on_sphere [OF assms] by auto
  with spiral_eq [OF assms] show ?thesis by simp
qed

text \<open>The theorem at \<open>steps = 4\<close>, \<open>radius = 200\<close>, \<open>turns = 30\<close>.\<close>

theorem spiral_on_sphere_witness:
  "(0::int) < 4 \<and> (\<exists>pts. spiral 4 200 30 = Inr pts \<and> length pts = 4
     \<and> (\<forall>pt \<in> set pts. case pt of (x, y, z) \<Rightarrow> x\<^sup>2 + y\<^sup>2 + z\<^sup>2 = 200\<^sup>2))"
  using spiral_on_sphere [of 4 200 30] by auto

subsection \<open>Lissajous: a zero gcd\<close>

text \<open>
  Claim C10. When \<open>gcd a b = 0\<close> (that is, \<open>a = 0\<close> and \<open>b = 0\<close>), the helper
  \<^verbatim>\<open>lcm(a, b)\<close> divides by zero and \<^const>\<open>generate_lissajous\<close> raises
  \<^verbatim>\<open>ZeroDivisionError\<close>.
\<close>

theorem generate_lissajous_gcd_zero:
  "gcd a b = 0 \<Longrightarrow>
   lcm_py a b = Inl ZeroDivisionError
   \<and> generate_lissajous a b c phase_x phase_y phase_z amp_x amp_y amp_z steps
       = Inl ZeroDivisionError"
  by (simp add: generate_lissajous_def lcm_py_zero)

text \<open>The theorem at \<open>a = 0\<close>, \<open>b = 0\<close>.\<close>

theorem generate_lissajous_gcd_zero_witness:
  "gcd (0::int) 0 = 0
   \<and> lcm_py 0 0 = Inl ZeroDivisionError
   \<and> generate_lissajous 0 0 5 0 (pi / 2) 0 100 100 100 25000 = Inl ZeroDivisionError"
  using generate_lissajous_gcd_zero [of 0 0 5 0 "pi / 2" 0 100 100 100 25000] by simp

end
